theory Spec2Isabelle
  imports Main "HOL-Library.AList" "HOL-Library.Multiset" "HOL-Library.Char_ord" "HOL-Library.List_Lexorder"
begin

section \<open>Errors\<close>

text \<open>
  The error values of the two packages. \<open>ErrReturn\<close> and \<open>ErrAsset\<close> are the values of
  package apierrors (the spec's BadResponse and AssetNotFound), \<open>ErrContinue\<close> is the
  sentinel of the paging loops, \<open>ErrOS\<close> is an error of the operating system and
  \<open>ErrExternal\<close> an error of a collaborator (transport, decoder, parser, retriever).
\<close>

datatype oserr = ENOENT | ENOTDIR | EACCES | EISDIR

datatype err =
    ErrEmptyVersion
  | ErrNoCompatible
  | ErrNoCompatibleLocally
  | ErrReturn
  | ErrAsset
  | ErrContinue
  | ErrOS oserr
  | ErrExternal string

section \<open>Release catalog client (package github)\<close>

subsection \<open>Untyped JSON values\<close>

text \<open>
  What \<open>json.Unmarshal\<close> stores in a Go \<open>any\<close>: nil, bool, float64, string, \<open>[]any\<close> and
  \<open>map[string]any\<close>. The client never reads a number, so its value is kept as an integer.
  An object is the association list of its fields, read with \<open>map_of\<close>.
\<close>

datatype json =
    JNull
  | JBool bool
  | JNumber int
  | JString string
  | JArray "json list"
  | JObject "(string \<times> json) list"

text \<open>\<open>object, _ := value.(map[string]any)\<close>: a failed assertion leaves the nil map, which has no field.\<close>

fun asObject :: "json \<Rightarrow> (string \<times> json) list" where
  "asObject (JObject kvs) = kvs"
| "asObject _ = []"

text \<open>\<open>s, ok := object[key].(string)\<close>: \<open>None\<close> is \<open>ok = false\<close>.\<close>

fun asString :: "json option \<Rightarrow> string option" where
  "asString (Some (JString s)) = Some s"
| "asString _ = None"

definition stringField :: "json \<Rightarrow> string \<Rightarrow> string option" where
  "stringField value key = asString (map_of (asObject value) key)"

subsection \<open>The transport\<close>

record request =
  url :: string
  headers :: "(string \<times> string) list"

record response =
  statusCode :: nat
  body :: "err + string"

text \<open>
  The standard-library calls of the client, taken as parameters: \<open>url.JoinPath\<close>,
  \<open>http.NewRequest\<close> (its error), \<open>http.DefaultClient.Do\<close> (an error is a transport error;
  a response carries its status code and the outcome of \<open>io.ReadAll\<close> on its body) and
  \<open>json.Unmarshal\<close>.
\<close>

record net =
  joinPath :: "string \<Rightarrow> string list \<Rightarrow> err + string"
  newRequest :: "string \<Rightarrow> err option"
  httpDo :: "request \<Rightarrow> err + response"
  unmarshal :: "string \<Rightarrow> err + json"

definition pageQuery :: string where
  "pageQuery = ''?page=''"

definition buildAuthorizationHeader :: "string \<Rightarrow> string" where
  "buildAuthorizationHeader token = (if token = '''' then '''' else ''Bearer '' @ token)"

definition buildRequest :: "string \<Rightarrow> string \<Rightarrow> request" where
  "buildRequest callURL authorizationHeader =
     \<lparr>url = callURL,
      headers = [(''Accept'', ''application/vnd.github+json'')]
        @ (if authorizationHeader \<noteq> '''' then [(''Authorization'', authorizationHeader)] else [])
        @ [(''X-GitHub-Api-Version'', ''2022-11-28'')]\<rparr>"

text \<open>
  \<open>apiGetRequest\<close>. The second component is the log of the requests sent so far, so that
  the number of requests an operation makes can be stated.
\<close>

definition apiGetRequest :: "net \<Rightarrow> string \<Rightarrow> string \<Rightarrow> request list \<Rightarrow> (err + json) \<times> request list" where
  "apiGetRequest N callURL authorizationHeader sent =
     (case newRequest N callURL of
        Some e \<Rightarrow> (Inl e, sent)
      | None \<Rightarrow>
          (let req = buildRequest callURL authorizationHeader; sent' = sent @ [req] in
           case httpDo N req of
             Inl e \<Rightarrow> (Inl e, sent')
           | Inr resp \<Rightarrow>
               (case body resp of
                  Inl e \<Rightarrow> (Inl e, sent')
                | Inr data \<Rightarrow> (unmarshal N data, sent'))))"

subsection \<open>Reading releases\<close>

definition extractVersion :: "json \<Rightarrow> string \<times> bool" where
  "extractVersion value =
     (let version = (case stringField value ''tag_name'' of Some s \<Rightarrow> s | None \<Rightarrow> '''') in
      case version of
        [] \<Rightarrow> ('''', False)
      | c # rest \<Rightarrow> if c = CHR ''v'' then (rest, True) else (version, True))"

fun extractReleases_loop :: "string list \<Rightarrow> json list \<Rightarrow> string list \<times> err option" where
  "extractReleases_loop releases [] = (releases, Some ErrContinue)"
| "extractReleases_loop releases (value # values) =
     (case extractVersion value of
        (version, ok) \<Rightarrow>
          if \<not> ok then ([], Some ErrReturn)
          else extractReleases_loop (releases @ [version]) values)"

definition extractReleases :: "string list \<Rightarrow> json \<Rightarrow> string list \<times> err option" where
  "extractReleases releases value =
     (case value of
        JArray values \<Rightarrow>
          if values = [] then (releases, None) else extractReleases_loop releases values
      | _ \<Rightarrow> ([], Some ErrReturn))"

text \<open>\<open>strconv.Itoa\<close> on a page number (never negative).\<close>

definition digit :: "nat \<Rightarrow> char" where
  "digit d = ''0123456789'' ! d"

function itoa :: "nat \<Rightarrow> string" where
  "itoa n = (if n < 10 then [digit n] else itoa (n div 10) @ [digit (n mod 10)])"
  by pat_completeness auto
termination
  by (relation "measure id") auto

declare itoa.simps [simp del]

definition LatestRelease :: "net \<Rightarrow> string \<Rightarrow> string \<Rightarrow> (string \<times> err option) \<times> request list" where
  "LatestRelease N githubReleaseURL githubToken =
     (case joinPath N githubReleaseURL [''latest''] of
        Inl e \<Rightarrow> (('''', Some e), [])
      | Inr latestUrl \<Rightarrow>
          (case apiGetRequest N latestUrl (buildAuthorizationHeader githubToken) [] of
             (Inl e, sent) \<Rightarrow> (('''', Some e), sent)
           | (Inr value, sent) \<Rightarrow>
               (case extractVersion value of
                  (version, ok) \<Rightarrow>
                    if \<not> ok then (('''', Some ErrReturn), sent) else ((version, None), sent))))"

text \<open>
  The paging loop of \<open>ListReleases\<close>. The Go loop has no bound: it runs for as long as the
  server answers with non-empty pages. The first argument bounds the number of pages
  fetched; \<open>None\<close> means the bound was reached before the loop returned.
\<close>

fun ListReleases_loop ::
  "nat \<Rightarrow> net \<Rightarrow> string \<Rightarrow> string \<Rightarrow> nat \<Rightarrow> string list \<Rightarrow> request list
    \<Rightarrow> ((string list \<times> err option) \<times> request list) option" where
  "ListReleases_loop 0 N basePageURL authorizationHeader page releases sent = None"
| "ListReleases_loop (Suc fuel) N basePageURL authorizationHeader page releases sent =
     (case apiGetRequest N (basePageURL @ itoa page) authorizationHeader sent of
        (Inl e, sent') \<Rightarrow> Some (([], Some e), sent')
      | (Inr value, sent') \<Rightarrow>
          (case extractReleases releases value of
             (releases', None) \<Rightarrow> Some ((releases', None), sent')
           | (releases', Some e) \<Rightarrow>
               if e \<noteq> ErrContinue then Some (([], Some e), sent')
               else ListReleases_loop fuel N basePageURL authorizationHeader (page + 1) releases' sent'))"

definition ListReleases ::
  "nat \<Rightarrow> net \<Rightarrow> string \<Rightarrow> string \<Rightarrow> ((string list \<times> err option) \<times> request list) option" where
  "ListReleases fuel N githubReleaseURL githubToken =
     ListReleases_loop fuel N (githubReleaseURL @ pageQuery) (buildAuthorizationHeader githubToken) 1 [] []"

subsection \<open>Searching the assets of a release\<close>

text \<open>
  \<open>extractAssets\<close> fills the map \<open>assets\<close> in place; the model returns it. The map is an
  association list with distinct keys, so \<open>len(assets)\<close> is its length.
\<close>

fun extractAssets_loop ::
  "(string \<times> string) list \<Rightarrow> string set \<Rightarrow> nat \<Rightarrow> json list \<Rightarrow> (string \<times> string) list \<times> err option" where
  "extractAssets_loop assets searchedAssetNameSet waited [] = (assets, Some ErrContinue)"
| "extractAssets_loop assets searchedAssetNameSet waited (value # values) =
     (case stringField value ''name'' of
        None \<Rightarrow> (assets, Some ErrReturn)
      | Some assetName \<Rightarrow>
          if assetName \<notin> searchedAssetNameSet
          then extractAssets_loop assets searchedAssetNameSet waited values
          else
            (case stringField value ''browser_download_url'' of
               None \<Rightarrow> (assets, Some ErrReturn)
             | Some downloadURL \<Rightarrow>
                 (let assets' = AList.update assetName downloadURL assets in
                  if length assets' = waited then (assets', None)
                  else extractAssets_loop assets' searchedAssetNameSet waited values)))"

definition extractAssets ::
  "(string \<times> string) list \<Rightarrow> string set \<Rightarrow> nat \<Rightarrow> json \<Rightarrow> (string \<times> string) list \<times> err option" where
  "extractAssets assets searchedAssetNameSet waited value =
     (case value of
        JArray values \<Rightarrow>
          if values = [] then (assets, Some ErrAsset)
          else extractAssets_loop assets searchedAssetNameSet waited values
      | _ \<Rightarrow> (assets, Some ErrReturn))"

text \<open>The paging loop of \<open>DownloadAssetURL\<close>, bounded like the one of \<open>ListReleases\<close>.\<close>

fun DownloadAssetURL_loop ::
  "nat \<Rightarrow> net \<Rightarrow> string \<Rightarrow> string \<Rightarrow> string set \<Rightarrow> nat \<Rightarrow> nat \<Rightarrow> (string \<times> string) list
    \<Rightarrow> request list \<Rightarrow> (((string \<times> string) list \<times> err option) \<times> request list) option" where
  "DownloadAssetURL_loop 0 N baseAssetsURL authorizationHeader searchedAssetNameSet waited page assets sent = None"
| "DownloadAssetURL_loop (Suc fuel) N baseAssetsURL authorizationHeader searchedAssetNameSet waited page assets sent =
     (case apiGetRequest N (baseAssetsURL @ itoa page) authorizationHeader sent of
        (Inl e, sent') \<Rightarrow> Some (([], Some e), sent')
      | (Inr value, sent') \<Rightarrow>
          (case extractAssets assets searchedAssetNameSet waited value of
             (assets', None) \<Rightarrow> Some ((assets', None), sent')
           | (assets', Some e) \<Rightarrow>
               if e \<noteq> ErrContinue then Some (([], Some e), sent')
               else DownloadAssetURL_loop fuel N baseAssetsURL authorizationHeader
                      searchedAssetNameSet waited (page + 1) assets' sent'))"

definition DownloadAssetURL ::
  "nat \<Rightarrow> net \<Rightarrow> string \<Rightarrow> string list \<Rightarrow> string \<Rightarrow> string
    \<Rightarrow> (((string \<times> string) list \<times> err option) \<times> request list) option" where
  "DownloadAssetURL fuel N tag searchedAssetNames githubReleaseURL githubToken =
     (case joinPath N githubReleaseURL [''tags'', tag] of
        Inl e \<Rightarrow> Some (([], Some e), [])
      | Inr releaseUrl \<Rightarrow>
          (let authorizationHeader = buildAuthorizationHeader githubToken in
           case apiGetRequest N releaseUrl authorizationHeader [] of
             (Inl e, sent) \<Rightarrow> Some (([], Some e), sent)
           | (Inr value, sent) \<Rightarrow>
               (case stringField value ''assets_url'' of
                  None \<Rightarrow> Some (([], Some ErrReturn), sent)
                | Some baseAssetsURL \<Rightarrow>
                    DownloadAssetURL_loop fuel N (baseAssetsURL @ pageQuery) authorizationHeader
                      (set searchedAssetNames) (length searchedAssetNames) 1 [] sent)))"

section \<open>The world of the version manager (package versionmanager)\<close>

subsection \<open>The comparator and the sort\<close>

text \<open>
  Modelled from the spec: \<open>reversecmp.Reverser\<close> is not among the sources; the spec has the
  listing sorted with the semver comparator, "optionally reversed".
\<close>

definition Reverser :: "('a \<Rightarrow> 'a \<Rightarrow> int) \<Rightarrow> bool \<Rightarrow> 'a \<Rightarrow> 'a \<Rightarrow> int" where
  "Reverser cmp reverseOrder = (if reverseOrder then (\<lambda>a b. cmp b a) else cmp)"

text \<open>
  \<open>slices.SortFunc\<close>. For a slice of at most twelve elements Go runs an insertion sort:
  element \<open>i\<close> is swapped with its left neighbour for as long as \<open>cmp(data[j], data[j-1]) < 0\<close>.
  \<open>moveLeft\<close> is that inner loop; it takes the part on the left in reverse order (nearest
  neighbour first) and returns it, with the element in place, in reverse order. On a longer
  slice Go switches to a quicksort, whose result is the same up to the order of elements
  that compare equal; the theorems below that depend on that order say so.
\<close>

fun moveLeft :: "('a \<Rightarrow> 'a \<Rightarrow> int) \<Rightarrow> 'a \<Rightarrow> 'a list \<Rightarrow> 'a list" where
  "moveLeft cmp x [] = [x]"
| "moveLeft cmp x (y # ys) = (if cmp x y < 0 then y # moveLeft cmp x ys else x # y # ys)"

definition SortFunc :: "('a \<Rightarrow> 'a \<Rightarrow> int) \<Rightarrow> 'a list \<Rightarrow> 'a list" where
  "SortFunc cmp xs = rev (foldl (\<lambda>done x. moveLeft cmp x done) [] xs)"

text \<open>
  What the sort needs of its comparator on the elements \<open>S\<close>: the sign of \<open>cmp a b\<close> is
  opposite to that of \<open>cmp b a\<close>, and \<open>cmp a b \<le> 0\<close> is transitive. \<open>noTies\<close>: distinct
  elements never compare equal.
\<close>

definition weakOrderOn :: "'a set \<Rightarrow> ('a \<Rightarrow> 'a \<Rightarrow> int) \<Rightarrow> bool" where
  "weakOrderOn S cmp \<longleftrightarrow>
     (\<forall>a\<in>S. \<forall>b\<in>S. (cmp a b < 0 \<longleftrightarrow> 0 < cmp b a)) \<and>
     (\<forall>a\<in>S. \<forall>b\<in>S. \<forall>c\<in>S. cmp a b \<le> 0 \<and> cmp b c \<le> 0 \<longrightarrow> cmp a c \<le> 0)"

definition noTies :: "'a set \<Rightarrow> ('a \<Rightarrow> 'a \<Rightarrow> int) \<Rightarrow> bool" where
  "noTies S cmp \<longleftrightarrow> (\<forall>a\<in>S. \<forall>b\<in>S. cmp a b = 0 \<longrightarrow> a = b)"

text \<open>
  Modelled from the spec: the semver comparator \<open>semantic.CmpVersion\<close> is not among the
  sources and the spec gives only its interface, so the manager takes it as a parameter.
  \<open>cmpDotted\<close> is an instance for evaluation: it orders dotted decimal versions segment by
  segment, a missing segment counting as 0 (so that \<open>1.0\<close> and \<open>1.0.0\<close> compare equal, as
  they do for the semver library); a name that is no such version sorts before all that are.
\<close>

fun splitDots :: "string \<Rightarrow> string \<Rightarrow> string list" where
  "splitDots cur [] = [rev cur]"
| "splitDots cur (c # cs) = (if c = CHR ''.'' then rev cur # splitDots [] cs else splitDots (c # cur) cs)"

definition digitValue :: "char \<Rightarrow> nat option" where
  "digitValue c = (if CHR ''0'' \<le> c \<and> c \<le> CHR ''9'' then Some (of_char c - 48) else None)"

fun natOfDigits :: "nat \<Rightarrow> string \<Rightarrow> nat option" where
  "natOfDigits acc [] = Some acc"
| "natOfDigits acc (c # cs) =
     (case digitValue c of None \<Rightarrow> None | Some d \<Rightarrow> natOfDigits (10 * acc + d) cs)"

fun segmentsOf :: "string list \<Rightarrow> nat list option" where
  "segmentsOf [] = Some []"
| "segmentsOf (s # ss) =
     (if s = [] then None
      else case natOfDigits 0 s of
        None \<Rightarrow> None
      | Some n \<Rightarrow> (case segmentsOf ss of None \<Rightarrow> None | Some ns \<Rightarrow> Some (n # ns)))"

fun cmpSegments :: "nat list \<Rightarrow> nat list \<Rightarrow> int" where
  "cmpSegments [] [] = 0"
| "cmpSegments (a # as) [] = (if 0 < a then 1 else cmpSegments as [])"
| "cmpSegments [] (b # bs) = (if 0 < b then - 1 else cmpSegments [] bs)"
| "cmpSegments (a # as) (b # bs) =
     (if a < b then - 1 else if b < a then 1 else cmpSegments as bs)"

definition cmpDotted :: "string \<Rightarrow> string \<Rightarrow> int" where
  "cmpDotted a b =
     (case (segmentsOf (splitDots [] a), segmentsOf (splitDots [] b)) of
        (None, None) \<Rightarrow> 0
      | (None, Some y) \<Rightarrow> - 1
      | (Some x, None) \<Rightarrow> 1
      | (Some x, Some y) \<Rightarrow> cmpSegments x y)"

subsection \<open>Files, environment and display\<close>

text \<open>
  A path is the list of its components, and \<open>filepath.Join\<close> appends a component (an empty
  one is dropped, as Go does); components are opaque names: \<open>.\<close>, \<open>..\<close> and separators inside
  a component are not interpreted. The empty list is the empty path.
\<close>

type_synonym path = "string list"

datatype node = Dir | File string

definition filepathJoin :: "path \<Rightarrow> string \<Rightarrow> path" where
  "filepathJoin p name = (if name = '''' then p else p @ [name])"

text \<open>
  What a run leaves behind besides files: the lines given to the displayer and its flushes,
  the sources the resolver read, the calls of the retriever and the use of the install lock.
\<close>

datatype event =
    Display string
  | Flush bool
  | DetectionInfo string string
  | Getenv string
  | ReadVersionFiles
  | ReadFlatVersion path
  | CallInstallRelease string path
  | CallListReleases
  | LockWrite path
  | LockDelete path

record world =
  environ :: "string \<Rightarrow> string"
  files :: "(path \<times> node) list"
  unreadable :: "path list"
  events :: "event list"

definition emit :: "event \<Rightarrow> world \<Rightarrow> world" where
  "emit e w = w\<lparr>events := events w @ [e]\<rparr>"

text \<open>
  The filesystem calls of the manager. \<open>files\<close> maps a path to its node (the first entry
  for a path counts); a directory listed in \<open>unreadable\<close> refuses every access to its
  entries with EACCES, which stands for the errors of \<open>os.Stat\<close> other than "not exist".
\<close>

definition osStat :: "world \<Rightarrow> path \<Rightarrow> err option" where
  "osStat w p =
     (if butlast p \<in> set (unreadable w) then Some (ErrOS EACCES)
      else case map_of (files w) p of None \<Rightarrow> Some (ErrOS ENOENT) | Some n \<Rightarrow> None)"

fun mkdirFrom :: "path list \<Rightarrow> path \<Rightarrow> string list \<Rightarrow> (path \<times> node) list \<Rightarrow> err option \<times> (path \<times> node) list" where
  "mkdirFrom unr parent [] fs = (None, fs)"
| "mkdirFrom unr parent (name # rest) fs =
     (case map_of fs (parent @ [name]) of
        Some (File c) \<Rightarrow> (Some (ErrOS ENOTDIR), fs)
      | Some Dir \<Rightarrow> mkdirFrom unr (parent @ [name]) rest fs
      | None \<Rightarrow>
          if parent \<in> set unr then (Some (ErrOS EACCES), fs)
          else mkdirFrom unr (parent @ [name]) rest (AList.update (parent @ [name]) Dir fs))"

definition osMkdirAll :: "world \<Rightarrow> path \<Rightarrow> err option \<times> world" where
  "osMkdirAll w p =
     (if p = [] then (Some (ErrOS ENOENT), w)
      else case mkdirFrom (unreadable w) [] p (files w) of (e, fs) \<Rightarrow> (e, w\<lparr>files := fs\<rparr>))"

text \<open>\<open>os.ReadDir\<close>: the entries of a directory as (name, is a directory), sorted by name.\<close>

definition osReadDir :: "world \<Rightarrow> path \<Rightarrow> err + (string \<times> bool) list" where
  "osReadDir w p =
     (if p \<in> set (unreadable w) then Inl (ErrOS EACCES)
      else case map_of (files w) p of
        None \<Rightarrow> Inl (ErrOS ENOENT)
      | Some (File c) \<Rightarrow> Inl (ErrOS ENOTDIR)
      | Some Dir \<Rightarrow>
          Inr (sort_key fst
                 (map (\<lambda>(q, n). (last q, n = Dir))
                    (filter (\<lambda>(q, n). q \<noteq> [] \<and> butlast q = p) (AList.clearjunk (files w))))))"

definition osWriteFile :: "world \<Rightarrow> path \<Rightarrow> string \<Rightarrow> err option \<times> world" where
  "osWriteFile w p content =
     (if p = [] then (Some (ErrOS ENOENT), w)
      else if butlast p \<in> set (unreadable w) then (Some (ErrOS EACCES), w)
      else case (if butlast p = [] then Some Dir else map_of (files w) (butlast p)) of
        None \<Rightarrow> (Some (ErrOS ENOENT), w)
      | Some (File c) \<Rightarrow> (Some (ErrOS ENOTDIR), w)
      | Some Dir \<Rightarrow>
          (case map_of (files w) p of
             Some Dir \<Rightarrow> (Some (ErrOS EISDIR), w)
           | _ \<Rightarrow> (None, w\<lparr>files := AList.update p (File content) (files w)\<rparr>)))"

section \<open>The version manager\<close>

subsection \<open>Configuration, collaborators and the manager\<close>

record config =
  RootPath :: path
  NoInstall :: bool
  ForceRemote :: bool

record versionFile =
  Name :: string

record predicateInfo =
  Predicate :: "string \<Rightarrow> bool"
  ReverseOrder :: bool

text \<open>
  The interface \<open>ReleaseInfoRetriever\<close>. \<open>InstallRelease\<close> acts on the files only; the
  remote list does not depend on the local world.
\<close>

record retriever =
  retrieverInstallRelease :: "string \<Rightarrow> path \<Rightarrow> (path \<times> node) list \<Rightarrow> err option \<times> (path \<times> node) list"
  retrieverListReleases :: "err + string list"

record versionManager =
  conf :: config
  constraintEnvName :: string
  FolderName :: string
  retriever :: retriever
  VersionEnvName :: string
  defaultVersionEnvName :: string
  VersionFiles :: "versionFile list"

text \<open>
  The collaborators outside the sources, as parameters: \<open>version.NewVersion\<close> followed by
  \<open>String\<close> (\<open>None\<close> when the text is no version), the comparator \<open>semantic.CmpVersion\<close>,
  \<open>semantic.ParsePredicate\<close>, and the two version-file readers \<open>semantic.RetrieveVersion\<close> and
  \<open>flatparser.RetrieveVersion\<close>, which return a text and an error. The last three read the
  environment and the files.
\<close>

record ext =
  newVersion :: "string \<Rightarrow> string option"
  cmpVersion :: "string \<Rightarrow> string \<Rightarrow> int"
  parsePredicate :: "string \<Rightarrow> (string \<Rightarrow> string) \<Rightarrow> (path \<times> node) list \<Rightarrow> err + predicateInfo"
  semanticRetrieveVersion :: "versionFile list \<Rightarrow> (string \<Rightarrow> string) \<Rightarrow> (path \<times> node) list \<Rightarrow> string \<times> err option"
  flatRetrieveVersion :: "path \<Rightarrow> (string \<Rightarrow> string) \<Rightarrow> (path \<times> node) list \<Rightarrow> string \<times> err option"

text \<open>A Go call either returns or panics (here: an index out of range).\<close>

datatype 'a outcome = Return 'a | Panic

subsection \<open>Messages\<close>

definition errorText :: "err \<Rightarrow> string" where
  "errorText e =
     (case e of
        ErrEmptyVersion \<Rightarrow> ''empty version''
      | ErrNoCompatible \<Rightarrow> ''no compatible version found''
      | ErrNoCompatibleLocally \<Rightarrow> ''no compatible version found locally''
      | ErrExternal s \<Rightarrow> s
      | _ \<Rightarrow> '''')"

text \<open>\<open>strings.ToLower\<close> on the ASCII letters.\<close>

definition toLower :: "string \<Rightarrow> string" where
  "toLower s = map (\<lambda>c. if CHR ''A'' \<le> c \<and> c \<le> CHR ''Z'' then char_of (of_char c + (32::nat)) else c) s"

definition alreadyInstalledMsg :: "versionManager \<Rightarrow> string \<Rightarrow> bool \<Rightarrow> world \<Rightarrow> world" where
  "alreadyInstalledMsg m version proxyCall w =
     emit (Flush proxyCall) (emit (Display (FolderName m @ '' '' @ version @ '' already installed'')) w)"

definition autoInstallDisabledMsg :: "versionManager \<Rightarrow> string \<Rightarrow> world \<Rightarrow> err \<times> world" where
  "autoInstallDisabledMsg m version w =
     (let cmdName = toLower (FolderName m); q = [CHR 0x27] in
      (ErrNoCompatibleLocally,
       emit (Display (''Auto-install is disabled. To install '' @ FolderName m @ '' version '' @ version
               @ '', you can set environment variable TENV_AUTO_INSTALL=true, or install it via any of the following command: ''
               @ q @ ''tenv '' @ cmdName @ '' install'' @ q @ '', ''
               @ q @ ''tenv '' @ cmdName @ '' install '' @ version @ q))
         (emit (Flush False) w)))"

text \<open>
  Modelled from the spec: \<open>types.DisplayDetectionInfo\<close> is not among the sources; by the spec
  every hit emits a detection-info line naming the source, and the value found is the result.
\<close>

definition DisplayDetectionInfo :: "string \<Rightarrow> string \<Rightarrow> world \<Rightarrow> string \<times> world" where
  "DisplayDetectionInfo version source w = (version, emit (DetectionInfo version source) w)"

text \<open>
  Modelled from the spec: package lockfile is not among the sources. Taking and releasing
  the install lock are recorded; waiting for another process is outside this sequential model.
\<close>

definition lockWrite :: "path \<Rightarrow> world \<Rightarrow> world" where
  "lockWrite installPath w = emit (LockWrite installPath) w"

definition lockDelete :: "path \<Rightarrow> world \<Rightarrow> world" where
  "lockDelete installPath w = emit (LockDelete installPath) w"

subsection \<open>Paths and files of the manager\<close>

definition InstallPath :: "versionManager \<Rightarrow> world \<Rightarrow> (path \<times> err option) \<times> world" where
  "InstallPath m w =
     (let dirPath = filepathJoin (RootPath (conf m)) (FolderName m) in
      case osMkdirAll w dirPath of (e, w') \<Rightarrow> ((dirPath, e), w'))"

definition RootVersionFilePath :: "versionManager \<Rightarrow> path" where
  "RootVersionFilePath m = filepathJoin (filepathJoin (RootPath (conf m)) (FolderName m)) ''version''"

definition writeFile :: "path \<Rightarrow> string \<Rightarrow> world \<Rightarrow> err option \<times> world" where
  "writeFile filePath content w =
     (case osWriteFile w filePath content of
        (None, w') \<Rightarrow> (None, emit (Display (''Written '' @ content @ '' in '' @ concat (map (\<lambda>c. CHR ''/'' # c) filePath))) w')
      | (Some e, w') \<Rightarrow> (Some e, w'))"

subsection \<open>Resolve\<close>

definition ResolveWithVersionFiles :: "ext \<Rightarrow> versionManager \<Rightarrow> world \<Rightarrow> (string \<times> err option) \<times> world" where
  "ResolveWithVersionFiles X m w =
     (semanticRetrieveVersion X (VersionFiles m) (environ w) (files w), emit ReadVersionFiles w)"

definition Resolve :: "ext \<Rightarrow> versionManager \<Rightarrow> string \<Rightarrow> world \<Rightarrow> (string \<times> err option) \<times> world" where
  "Resolve X m defaultStrategy w =
     (let version = environ w (VersionEnvName m); w1 = emit (Getenv (VersionEnvName m)) w in
      if version \<noteq> '''' then
        (case DisplayDetectionInfo version (VersionEnvName m) w1 of (v, w2) \<Rightarrow> ((v, None), w2))
      else
        (case ResolveWithVersionFiles X m w1 of
           ((version, e), w2) \<Rightarrow>
             if e \<noteq> None \<or> version \<noteq> '''' then ((version, e), w2)
             else
               (let version = environ w2 (defaultVersionEnvName m);
                    w3 = emit (Getenv (defaultVersionEnvName m)) w2 in
                if version \<noteq> '''' then
                  (case DisplayDetectionInfo version (defaultVersionEnvName m) w3 of
                     (v, w4) \<Rightarrow> ((v, None), w4))
                else
                  (case (flatRetrieveVersion X (RootVersionFilePath m) (environ w3) (files w3),
                         emit (ReadFlatVersion (RootVersionFilePath m)) w3) of
                     ((version, e), w4) \<Rightarrow>
                       if e \<noteq> None \<or> version \<noteq> '''' then ((version, e), w4)
                       else
                         ((defaultStrategy, None),
                          emit (Display (''No version files found for '' @ FolderName m
                                  @ '', fallback to '' @ defaultStrategy @ '' strategy'')) w4)))))"

subsection \<open>Presence test, local inventory and installer\<close>

definition checkVersionInstallation ::
  "versionManager \<Rightarrow> path \<Rightarrow> string \<Rightarrow> world \<Rightarrow> (path \<times> bool \<times> err option) \<times> world" where
  "checkVersionInstallation m installPath version w =
     (case (if installPath = [] then InstallPath m w else ((installPath, None), w)) of
        ((installPath', Some e), w') \<Rightarrow> (([], False, Some e), w')
      | ((installPath', None), w') \<Rightarrow>
          (case osStat w' (filepathJoin installPath' version) of
             Some e \<Rightarrow>
               if e = ErrOS ENOENT then ((installPath', False, None), w')
               else (([], False, Some e), w')
           | None \<Rightarrow> ((installPath', True, None), w')))"

definition innerListLocal :: "ext \<Rightarrow> path \<Rightarrow> bool \<Rightarrow> world \<Rightarrow> string list \<times> err option" where
  "innerListLocal X installPath reverseOrder w =
     (case osReadDir w installPath of
        Inl e \<Rightarrow> ([], Some e)
      | Inr entries \<Rightarrow>
          (let versions = map fst (filter snd entries) in
           (SortFunc (Reverser (cmpVersion X) reverseOrder) versions, None)))"

definition installSpecificVersion :: "versionManager \<Rightarrow> string \<Rightarrow> bool \<Rightarrow> world \<Rightarrow> err option \<times> world" where
  "installSpecificVersion m version proxyCall w =
     (if version = '''' then (Some ErrEmptyVersion, emit (Flush proxyCall) w)
      else
        (case checkVersionInstallation m [] version w of
           ((installPath, installed, Some e), w1) \<Rightarrow> (Some e, w1)
         | ((installPath, True, None), w1) \<Rightarrow> (None, alreadyInstalledMsg m version proxyCall w1)
         | ((installPath, False, None), w1) \<Rightarrow>
             (let w2 = lockWrite installPath w1 in
              case checkVersionInstallation m installPath version w2 of
                ((p, installed, Some e), w3) \<Rightarrow> (Some e, lockDelete installPath w3)
              | ((p, True, None), w3) \<Rightarrow>
                  (None, lockDelete installPath (alreadyInstalledMsg m version proxyCall w3))
              | ((p, False, None), w3) \<Rightarrow>
                  (let w4 = emit (Display (''Installing '' @ FolderName m @ '' '' @ version))
                              (emit (Flush False) w3);
                       targetPath = filepathJoin installPath version;
                       w5 = emit (CallInstallRelease version targetPath) w4 in
                   case retrieverInstallRelease (retriever m) version targetPath (files w5) of
                     (e, fs) \<Rightarrow>
                       (let w6 = w5\<lparr>files := fs\<rparr>;
                            w7 = (if e = None
                                  then emit (Display (''Installation of '' @ FolderName m @ '' ''
                                               @ version @ '' successful'')) w6
                                  else w6) in
                        (e, lockDelete installPath w7))))))"

subsection \<open>Remote search and the facade\<close>

definition ListRemote :: "ext \<Rightarrow> versionManager \<Rightarrow> bool \<Rightarrow> world \<Rightarrow> (string list \<times> err option) \<times> world" where
  "ListRemote X m reverseOrder w =
     (let w1 = emit CallListReleases w in
      case retrieverListReleases (retriever m) of
        Inl e \<Rightarrow> (([], Some e), w1)
      | Inr versions \<Rightarrow> ((SortFunc (Reverser (cmpVersion X) reverseOrder) versions, None), w1))"

text \<open>The two \<open>for ... range versions\<close> loops return at the first version the predicate accepts.\<close>

fun firstAccepted :: "(string \<Rightarrow> bool) \<Rightarrow> string list \<Rightarrow> string option" where
  "firstAccepted predicate [] = None"
| "firstAccepted predicate (version # versions) =
     (if predicate version then Some version else firstAccepted predicate versions)"

definition searchInstallRemote ::
  "ext \<Rightarrow> versionManager \<Rightarrow> predicateInfo \<Rightarrow> bool \<Rightarrow> bool \<Rightarrow> world \<Rightarrow> (string \<times> err option) \<times> world" where
  "searchInstallRemote X m info noInstall proxyCall w =
     (case ListRemote X m (ReverseOrder info) w of
        ((versions, Some e), w1) \<Rightarrow> (('''', Some e), emit (Flush proxyCall) w1)
      | ((versions, None), w1) \<Rightarrow>
          (case firstAccepted (Predicate info) versions of
             Some version \<Rightarrow>
               (let w2 = emit (Display (''Found compatible version remotely : '' @ version)) w1 in
                if noInstall then
                  (case autoInstallDisabledMsg m version w2 of (e, w3) \<Rightarrow> ((version, Some e), w3))
                else
                  (case installSpecificVersion m version proxyCall w2 of (e, w3) \<Rightarrow> ((version, e), w3)))
           | None \<Rightarrow> (('''', Some ErrNoCompatible), emit (Flush proxyCall) w1)))"

definition Evaluate :: "ext \<Rightarrow> versionManager \<Rightarrow> string \<Rightarrow> bool \<Rightarrow> world \<Rightarrow> (string \<times> err option) \<times> world" where
  "Evaluate X m requestedVersion proxyCall w =
     (case newVersion X requestedVersion of
        Some cleanedVersion \<Rightarrow>
          if NoInstall (conf m) then
            (case checkVersionInstallation m [] cleanedVersion w of
               ((p, installed, Some e), w1) \<Rightarrow> (('''', Some e), w1)
             | ((p, False, None), w1) \<Rightarrow>
                 (case autoInstallDisabledMsg m cleanedVersion w1 of
                    (e, w2) \<Rightarrow> ((cleanedVersion, Some e), w2))
             | ((p, True, None), w1) \<Rightarrow> ((cleanedVersion, None), emit (Flush proxyCall) w1))
          else
            (case installSpecificVersion m cleanedVersion proxyCall w of
               (e, w1) \<Rightarrow> ((cleanedVersion, e), w1))
      | None \<Rightarrow>
          (case parsePredicate X requestedVersion (environ w) (files w) of
             Inl e \<Rightarrow> (('''', Some e), emit (Flush proxyCall) w)
           | Inr info \<Rightarrow>
               (case InstallPath m w of
                  ((installPath, Some e), w1) \<Rightarrow> (('''', Some e), emit (Flush proxyCall) w1)
                | ((installPath, None), w1) \<Rightarrow>
                    if \<not> ForceRemote (conf m) then
                      (case innerListLocal X installPath (ReverseOrder info) w1 of
                         (versions, Some e) \<Rightarrow> (('''', Some e), emit (Flush proxyCall) w1)
                       | (versions, None) \<Rightarrow>
                           (case firstAccepted (Predicate info) versions of
                              Some version \<Rightarrow>
                                ((version, None),
                                 emit (Flush proxyCall)
                                   (emit (Display (''Found compatible version installed locally : '' @ version)) w1))
                            | None \<Rightarrow>
                                searchInstallRemote X m info (NoInstall (conf m)) proxyCall
                                  (emit (Display ''No compatible version found locally, search a remote one...'') w1)))
                    else searchInstallRemote X m info (NoInstall (conf m)) proxyCall w1)))"

definition Detect :: "ext \<Rightarrow> versionManager \<Rightarrow> bool \<Rightarrow> world \<Rightarrow> (string \<times> err option) \<times> world" where
  "Detect X m proxyCall w =
     (case Resolve X m ''latest-allowed'' w of
        ((configVersion, Some e), w1) \<Rightarrow> (('''', Some e), emit (Flush proxyCall) w1)
      | ((configVersion, None), w1) \<Rightarrow> Evaluate X m configVersion proxyCall w1)"

definition Install :: "ext \<Rightarrow> versionManager \<Rightarrow> string \<Rightarrow> world \<Rightarrow> err option \<times> world" where
  "Install X m requestedVersion w =
     (case newVersion X requestedVersion of
        Some cleanedVersion \<Rightarrow> installSpecificVersion m cleanedVersion False w
      | None \<Rightarrow>
          (case parsePredicate X requestedVersion (environ w) (files w) of
             Inl e \<Rightarrow> (Some e, w)
           | Inr info \<Rightarrow>
               (case searchInstallRemote X m info False False w of ((version, e), w1) \<Rightarrow> (e, w1))))"

text \<open>
  \<open>Use\<close>. The statement \<open>targetFilePath := m.VersionFiles[0].Name\<close> runs before the test of
  \<open>workingDir\<close>; on an empty list it panics.
\<close>

definition Use :: "ext \<Rightarrow> versionManager \<Rightarrow> string \<Rightarrow> bool \<Rightarrow> world \<Rightarrow> err option outcome \<times> world" where
  "Use X m requestedVersion workingDir w =
     (case Evaluate X m requestedVersion False w of
        ((detectedVersion, e), w1) \<Rightarrow>
          if e \<noteq> None \<and> e \<noteq> Some ErrNoCompatibleLocally then (Return e, w1)
          else
            (let w2 = (case e of None \<Rightarrow> w1 | Some e' \<Rightarrow> emit (Display (errorText e')) w1) in
             case VersionFiles m of
               [] \<Rightarrow> (Panic, w2)
             | vf # rest \<Rightarrow>
                 (let targetFilePath = (if \<not> workingDir then RootVersionFilePath m else [Name vf]) in
                  case writeFile targetFilePath detectedVersion w2 of (e2, w3) \<Rightarrow> (Return e2, w3))))"

text \<open>The calls of the retriever among the events of a world.\<close>

fun isRetrieverCall :: "event \<Rightarrow> bool" where
  "isRetrieverCall (CallInstallRelease version targetPath) = True"
| "isRetrieverCall CallListReleases = True"
| "isRetrieverCall e = False"

definition retrieverCalls :: "world \<Rightarrow> event list" where
  "retrieverCalls w = filter isRetrieverCall (events w)"

section \<open>Reference notions and doubles for the catalog client\<close>

text \<open>
  The spec's canonicalization, in its words: "if it starts with \<open>v\<close>, drop that prefix".
\<close>

definition dropLeadingV :: "string \<Rightarrow> string" where
  "dropLeadingV tag = (case tag of [] \<Rightarrow> [] | c # rest \<Rightarrow> if c = CHR ''v'' then rest else tag)"



text \<open>
  A double for the transport: \<open>served\<close> gives, for a URL, the status code and the body text
  of the answer (no entry: the connection fails); \<open>decoded\<close> gives the JSON value a body
  text stands for (no entry: the text is no JSON).
\<close>

definition stubNet :: "(string \<times> nat \<times> string) list \<Rightarrow> (string \<times> json) list \<Rightarrow> net" where
  "stubNet served decoded =
     \<lparr>joinPath = (\<lambda>base elems. Inr (base @ concat (map (\<lambda>e. CHR ''/'' # e) elems))),
      newRequest = (\<lambda>callURL. None),
      httpDo = (\<lambda>req. case map_of served (url req) of
                  None \<Rightarrow> Inl (ErrExternal ''connection refused'')
                | Some (code, text) \<Rightarrow> Inr \<lparr>statusCode = code, body = Inr text\<rparr>),
      unmarshal = (\<lambda>text. case map_of decoded text of
                  None \<Rightarrow> Inl (ErrExternal ''invalid JSON'')
                | Some decodedValue \<Rightarrow> Inr decodedValue)\<rparr>"

definition release :: "string \<Rightarrow> json" where
  "release tag = JObject [(''tag_name'', JString tag), (''assets_url'', JString (''https://api/assets/'' @ tag))]"




text \<open>The same transport, answering with other status codes.\<close>

definition withStatus :: "(request \<Rightarrow> nat) \<Rightarrow> net \<Rightarrow> net" where
  "withStatus code N =
     N\<lparr>httpDo := (\<lambda>req. case httpDo N req of
                       Inl e \<Rightarrow> Inl e
                     | Inr resp \<Rightarrow> Inr (resp\<lparr>statusCode := code req\<rparr>))\<rparr>"

text \<open>
  A catalog that answers the request for the latest release with status 500 and the body of
  a release, and one that cannot be reached.
\<close>

definition serverErrorNet :: net where
  "serverErrorNet = stubNet
     [(''https://api/releases/latest'', 500, ''latest'')]
     [(''latest'', release ''v1.6.2'')]"

definition unreachableNet :: net where
  "unreachableNet = stubNet [] []"



section \<open>Reference notions and doubles for the version manager\<close>

text \<open>The names of the direct sub-directories of a directory.\<close>

definition subdirectories :: "world \<Rightarrow> path \<Rightarrow> string set" where
  "subdirectories w p = {name. map_of (files w) (p @ [name]) = Some Dir}"

text \<open>
  Doubles for the collaborators of the manager. A text is a version when, after one leading
  \<open>v\<close>, it is a dotted decimal; the only predicate known is \<open>latest\<close>, which accepts every
  version, newest first; the version files are read from the files of the world.
\<close>

definition stubExt :: ext where
  "stubExt =
     \<lparr>newVersion = (\<lambda>s. case segmentsOf (splitDots [] (dropLeadingV s)) of
                           None \<Rightarrow> None | Some ns \<Rightarrow> Some (dropLeadingV s)),
      cmpVersion = cmpDotted,
      parsePredicate = (\<lambda>s env fs. if s = ''latest''
                                then Inr \<lparr>Predicate = (\<lambda>v. True), ReverseOrder = True\<rparr>
                                else Inl (ErrExternal ''unknown constraint'')),
      semanticRetrieveVersion = (\<lambda>vfs env fs. case vfs of
                           [] \<Rightarrow> ('''', None)
                         | vf # rest \<Rightarrow> (case map_of fs [Name vf] of
                                          Some (File c) \<Rightarrow> (c, None)
                                        | _ \<Rightarrow> ('''', None))),
      flatRetrieveVersion = (\<lambda>p env fs. case map_of fs p of
                           Some (File c) \<Rightarrow> (c, None)
                         | _ \<Rightarrow> ('''', None))\<rparr>"

text \<open>
  A retriever that installs by creating the target directory, and offers three releases.
\<close>

definition stubRetriever :: retriever where
  "stubRetriever =
     \<lparr>retrieverInstallRelease = (\<lambda>version targetPath fs. (None, AList.update targetPath Dir fs)),
      retrieverListReleases = Inr [''1.5.0'', ''1.6.0'', ''1.5.7'']\<rparr>"

definition tofuManager :: versionManager where
  "tofuManager =
     \<lparr>conf = \<lparr>RootPath = [''home'', ''.tenv''], NoInstall = False, ForceRemote = False\<rparr>,
      constraintEnvName = ''TOFUENV_TOFU_DEFAULT_CONSTRAINT'',
      FolderName = ''OpenTofu'',
      retriever = stubRetriever,
      VersionEnvName = ''TOFUENV_TOFU_VERSION'',
      defaultVersionEnvName = ''TOFUENV_TOFU_DEFAULT_VERSION'',
      VersionFiles = [\<lparr>Name = ''.opentofu-version''\<rparr>]\<rparr>"

text \<open>
  Worlds: the install directory holding the versions 1.5.7 and 1.5.0 and the file
  \<open>version\<close>; and one holding the directories \<open>1.0\<close> and \<open>1.0.0\<close>.
\<close>

definition baseWorld :: "(path \<times> node) list \<Rightarrow> world" where
  "baseWorld fs = \<lparr>environ = (\<lambda>name. ''''), files = fs, unreadable = [], events = []\<rparr>"

definition installedWorld :: world where
  "installedWorld = baseWorld
     [([''home''], Dir), ([''home'', ''.tenv''], Dir), ([''home'', ''.tenv'', ''OpenTofu''], Dir),
      ([''home'', ''.tenv'', ''OpenTofu'', ''1.5.7''], Dir),
      ([''home'', ''.tenv'', ''OpenTofu'', ''version''], File ''1.5.7''),
      ([''home'', ''.tenv'', ''OpenTofu'', ''1.5.0''], Dir)]"

definition tiedWorld :: world where
  "tiedWorld = baseWorld
     [([''home''], Dir), ([''home'', ''.tenv''], Dir), ([''home'', ''.tenv'', ''OpenTofu''], Dir),
      ([''home'', ''.tenv'', ''OpenTofu'', ''1.0.0''], Dir),
      ([''home'', ''.tenv'', ''OpenTofu'', ''1.0''], Dir)]"

text \<open>
  The resolver in the words of the spec: the sources are consulted in a strict order, the
  first that yields a non-empty value (or an error) decides, and the fallback is the result
  when none does. \<open>firstNonEmpty\<close> returns the result together with the sources consulted.
\<close>

datatype source = EnvVar string | VersionFileScan | FlatFile path

definition readSource :: "ext \<Rightarrow> versionManager \<Rightarrow> world \<Rightarrow> source \<Rightarrow> string \<times> err option" where
  "readSource X m w src =
     (case src of
        EnvVar name \<Rightarrow> (environ w name, None)
      | VersionFileScan \<Rightarrow> semanticRetrieveVersion X (VersionFiles m) (environ w) (files w)
      | FlatFile p \<Rightarrow> flatRetrieveVersion X p (environ w) (files w))"

fun firstNonEmpty ::
  "(source \<Rightarrow> string \<times> err option) \<Rightarrow> source list \<Rightarrow> string \<Rightarrow> (string \<times> err option) \<times> source list" where
  "firstNonEmpty rd [] fallback = ((fallback, None), [])"
| "firstNonEmpty rd (src # srcs) fallback =
     (case rd src of
        (v, e) \<Rightarrow>
          if e \<noteq> None \<or> v \<noteq> '''' then ((v, e), [src])
          else (case firstNonEmpty rd srcs fallback of (r, consulted) \<Rightarrow> (r, src # consulted)))"

definition resolverSources :: "versionManager \<Rightarrow> source list" where
  "resolverSources m =
     [EnvVar (VersionEnvName m), VersionFileScan, EnvVar (defaultVersionEnvName m),
      FlatFile (filepathJoin (filepathJoin (RootPath (conf m)) (FolderName m)) ''version'')]"

text \<open>The sources read, among the events of a run.\<close>

fun sourcesRead :: "event list \<Rightarrow> source list" where
  "sourcesRead [] = []"
| "sourcesRead (Getenv name # es) = EnvVar name # sourcesRead es"
| "sourcesRead (ReadVersionFiles # es) = VersionFileScan # sourcesRead es"
| "sourcesRead (ReadFlatVersion p # es) = FlatFile p # sourcesRead es"
| "sourcesRead (e # es) = sourcesRead es"

text \<open>
  The world of the spec's scenario 6: the environment sets the version, the working
  directory and the root version file name others.
\<close>

definition precedenceWorld :: world where
  "precedenceWorld =
     \<lparr>environ = (\<lambda>name. if name = ''TOFUENV_TOFU_VERSION'' then ''1.5.0'' else ''''),
      files = [([''.opentofu-version''], File ''1.6.0''),
               ([''home''], Dir), ([''home'', ''.tenv''], Dir), ([''home'', ''.tenv'', ''OpenTofu''], Dir),
               ([''home'', ''.tenv'', ''OpenTofu'', ''version''], File ''1.4.0'')],
      unreadable = [], events = []\<rparr>"

text \<open>A world where the entry named 1.6.2 under the install path is a regular file.\<close>

definition plainFileWorld :: world where
  "plainFileWorld = baseWorld
     [([''home''], Dir), ([''home'', ''.tenv''], Dir), ([''home'', ''.tenv'', ''OpenTofu''], Dir),
      ([''home'', ''.tenv'', ''OpenTofu'', ''1.6.2''], File ''not a directory'')]"

text \<open>The same manager with auto-install disabled.\<close>

definition noInstallManager :: versionManager where
  "noInstallManager = tofuManager\<lparr>conf := (conf tofuManager)\<lparr>NoInstall := True\<rparr>\<rparr>"

text \<open>
  The contract of the retriever (spec, section 6): a successful \<open>install_release\<close> has created
  the target path as a directory.
\<close>

definition createsTarget :: "retriever \<Rightarrow> bool" where
  "createsTarget r \<longleftrightarrow>
     (\<forall>version targetPath fs fs'.
        retrieverInstallRelease r version targetPath fs = (None, fs') \<longrightarrow> map_of fs' targetPath = Some Dir)"




text \<open>A manager built with no version file.\<close>

definition bareManager :: versionManager where
  "bareManager = tofuManager\<lparr>VersionFiles := []\<rparr>"

section \<open>Properties of the catalog client\<close>



subsection \<open>Canonical versions\<close>












subsection \<open>Failures of the transport\<close>

lemma apiGetRequest_withStatus:
  "apiGetRequest (withStatus code N) callURL auth sent = apiGetRequest N callURL auth sent"
  by (simp add: apiGetRequest_def withStatus_def Let_def split: option.splits sum.splits)

lemma ListReleases_loop_withStatus:
  "ListReleases_loop fuel (withStatus code N) base auth page rs sent = ListReleases_loop fuel N base auth page rs sent"
  by (induction fuel arbitrary: page rs sent) (simp_all add: apiGetRequest_withStatus split: prod.splits sum.splits option.splits)

lemma DownloadAssetURL_loop_withStatus:
  "DownloadAssetURL_loop fuel (withStatus code N) base auth S waited page assets sent =
   DownloadAssetURL_loop fuel N base auth S waited page assets sent"
  by (induction fuel arbitrary: page assets sent) (simp_all add: apiGetRequest_withStatus split: prod.splits sum.splits option.splits)

lemma joinPath_withStatus: "joinPath (withStatus code N) = joinPath N"
  by (simp add: withStatus_def)

lemma apiGetRequest_transport_error:
  "newRequest N callURL = None \<Longrightarrow> httpDo N (buildRequest callURL auth) = Inl e \<Longrightarrow>
   apiGetRequest N callURL auth sent = (Inl e, sent @ [buildRequest callURL auth])"
  by (simp add: apiGetRequest_def Let_def)

text \<open>
  C8, as amended. For every catalog request a transport error surfaces directly as the error
  of the operation, after that one request and with no retry: \<open>apiGetRequest\<close> itself, the
  single request of \<open>LatestRelease\<close>, every page of \<open>ListReleases\<close>, the release request and
  every asset page of \<open>DownloadAssetURL\<close>. The status code of a response is never read:
  the three operations give the same result whatever the status codes are.
\<close>

theorem transport_errors_surface_without_retry:
  "(newRequest N callURL = None \<and> httpDo N (buildRequest callURL auth) = Inl e \<longrightarrow>
      apiGetRequest N callURL auth sent = (Inl e, sent @ [buildRequest callURL auth])) \<and>
   (joinPath N base [''latest''] = Inr callURL \<and> auth = buildAuthorizationHeader token \<and>
    newRequest N callURL = None \<and> httpDo N (buildRequest callURL auth) = Inl e \<longrightarrow>
      LatestRelease N base token = (('''', Some e), [buildRequest callURL auth])) \<and>
   (callURL = basePageURL @ itoa page \<and>
    newRequest N callURL = None \<and> httpDo N (buildRequest callURL auth) = Inl e \<longrightarrow>
      ListReleases_loop (Suc fuel) N basePageURL auth page releases sent =
        Some (([], Some e), sent @ [buildRequest callURL auth])) \<and>
   (joinPath N base [''tags'', tag] = Inr callURL \<and> auth = buildAuthorizationHeader token \<and>
    newRequest N callURL = None \<and> httpDo N (buildRequest callURL auth) = Inl e \<longrightarrow>
      DownloadAssetURL fuel N tag names base token = Some (([], Some e), [buildRequest callURL auth])) \<and>
   (callURL = baseAssetsURL @ itoa page \<and>
    newRequest N callURL = None \<and> httpDo N (buildRequest callURL auth) = Inl e \<longrightarrow>
      DownloadAssetURL_loop (Suc fuel) N baseAssetsURL auth S waited page assets sent =
        Some (([], Some e), sent @ [buildRequest callURL auth])) \<and>
   LatestRelease (withStatus code N) base token = LatestRelease N base token \<and>
   ListReleases fuel (withStatus code N) base token = ListReleases fuel N base token \<and>
   DownloadAssetURL fuel (withStatus code N) tag names base token = DownloadAssetURL fuel N tag names base token"
proof (intro conjI impI)
  assume "newRequest N callURL = None \<and> httpDo N (buildRequest callURL auth) = Inl e"
  then show "apiGetRequest N callURL auth sent = (Inl e, sent @ [buildRequest callURL auth])"
    by (auto simp: apiGetRequest_transport_error)
next
  assume "joinPath N base [''latest''] = Inr callURL \<and> auth = buildAuthorizationHeader token \<and>
    newRequest N callURL = None \<and> httpDo N (buildRequest callURL auth) = Inl e"
  then show "LatestRelease N base token = (('''', Some e), [buildRequest callURL auth])"
    by (auto simp: LatestRelease_def apiGetRequest_transport_error)
next
  assume "callURL = basePageURL @ itoa page \<and>
    newRequest N callURL = None \<and> httpDo N (buildRequest callURL auth) = Inl e"
  then show "ListReleases_loop (Suc fuel) N basePageURL auth page releases sent =
        Some (([], Some e), sent @ [buildRequest callURL auth])"
    by (auto simp: apiGetRequest_transport_error)
next
  assume "joinPath N base [''tags'', tag] = Inr callURL \<and> auth = buildAuthorizationHeader token \<and>
    newRequest N callURL = None \<and> httpDo N (buildRequest callURL auth) = Inl e"
  then show "DownloadAssetURL fuel N tag names base token = Some (([], Some e), [buildRequest callURL auth])"
    by (auto simp: DownloadAssetURL_def apiGetRequest_transport_error)
next
  assume "callURL = baseAssetsURL @ itoa page \<and>
    newRequest N callURL = None \<and> httpDo N (buildRequest callURL auth) = Inl e"
  then show "DownloadAssetURL_loop (Suc fuel) N baseAssetsURL auth S waited page assets sent =
        Some (([], Some e), sent @ [buildRequest callURL auth])"
    by (auto simp: apiGetRequest_transport_error)
next
  show "LatestRelease (withStatus code N) base token = LatestRelease N base token"
    by (simp add: LatestRelease_def apiGetRequest_withStatus joinPath_withStatus cong: sum.case_cong)
next
  show "ListReleases fuel (withStatus code N) base token = ListReleases fuel N base token"
    by (simp add: ListReleases_def ListReleases_loop_withStatus)
next
  show "DownloadAssetURL fuel (withStatus code N) tag names base token = DownloadAssetURL fuel N tag names base token"
    by (simp add: DownloadAssetURL_def apiGetRequest_withStatus joinPath_withStatus
        DownloadAssetURL_loop_withStatus cong: sum.case_cong option.case_cong prod.case_cong)
qed

theorem transport_errors_surface_without_retry_witness:
  "LatestRelease unreachableNet ''https://api/releases'' '''' =
     (('''', Some (ErrExternal ''connection refused'')), [buildRequest ''https://api/releases/latest'' '''']) \<and>
   ListReleases_loop (Suc 0) unreachableNet ''https://api/releases?page='' '''' 1 [] [] =
     Some (([], Some (ErrExternal ''connection refused'')), [buildRequest ''https://api/releases?page=1'' '''']) \<and>
   DownloadAssetURL 5 unreachableNet ''v1.6.2'' [''tofu.zip''] ''https://api/releases'' '''' =
     Some (([], Some (ErrExternal ''connection refused'')), [buildRequest ''https://api/releases/tags/v1.6.2'' '''']) \<and>
   LatestRelease (withStatus (\<lambda>req. 200) serverErrorNet) ''https://api/releases'' '''' =
     LatestRelease serverErrorNet ''https://api/releases'' ''''"
proof -
  note inst = transport_errors_surface_without_retry[where N = unreachableNet and token = "''''"
      and auth = "''''" and e = "ErrExternal ''connection refused''" and sent = "[]" and fuel = 5
      and names = "[''tofu.zip'']" and base = "''https://api/releases''"]
  have down: "\<And>u. httpDo unreachableNet (buildRequest u '''') = Inl (ErrExternal ''connection refused'')"
    "\<And>u. newRequest unreachableNet u = None"
    "joinPath unreachableNet ''https://api/releases'' [''latest''] = Inr ''https://api/releases/latest''"
    "joinPath unreachableNet ''https://api/releases'' [''tags'', ''v1.6.2''] = Inr ''https://api/releases/tags/v1.6.2''"
    "buildAuthorizationHeader '''' = ''''"
    by (simp_all add: unreachableNet_def stubNet_def buildAuthorizationHeader_def)
  have "LatestRelease unreachableNet ''https://api/releases'' '''' =
     (('''', Some (ErrExternal ''connection refused'')), [buildRequest ''https://api/releases/latest'' ''''])"
    using inst[where callURL = "''https://api/releases/latest''"] down by simp
  moreover have "ListReleases_loop (Suc 0) unreachableNet ''https://api/releases?page='' '''' 1 [] [] =
     Some (([], Some (ErrExternal ''connection refused'')), [buildRequest ''https://api/releases?page=1'' ''''])"
    using transport_errors_surface_without_retry[where N = unreachableNet and auth = "''''"
        and e = "ErrExternal ''connection refused''" and sent = "[]" and fuel = 0
        and basePageURL = "''https://api/releases?page=''" and page = 1 and releases = "[]"
        and callURL = "''https://api/releases?page=1''"] down
    by (simp add: itoa.simps digit_def)
  moreover have "DownloadAssetURL 5 unreachableNet ''v1.6.2'' [''tofu.zip''] ''https://api/releases'' '''' =
     Some (([], Some (ErrExternal ''connection refused'')), [buildRequest ''https://api/releases/tags/v1.6.2'' ''''])"
    using inst[where callURL = "''https://api/releases/tags/v1.6.2''" and tag = "''v1.6.2''"] down by simp
  moreover have "LatestRelease (withStatus (\<lambda>req. 200) serverErrorNet) ''https://api/releases'' '''' =
     LatestRelease serverErrorNet ''https://api/releases'' ''''"
    using transport_errors_surface_without_retry[where N = serverErrorNet and token = "''''"
        and base = "''https://api/releases''" and code = "\<lambda>req. 200"]
    by simp
  ultimately show ?thesis by blast
qed

text \<open>
  C8 as stated fails: a response with status 500 whose body is a release object makes
  \<open>LatestRelease\<close> return its version with no error.
\<close>

theorem non_2xx_response_is_a_success:
  "map_sum id statusCode (httpDo serverErrorNet (buildRequest ''https://api/releases/latest'' '''')) = Inr 500 \<and>
   LatestRelease serverErrorNet ''https://api/releases'' '''' =
     ((''1.6.2'', None), [buildRequest ''https://api/releases/latest'' ''''])"
  by (simp add: LatestRelease_def serverErrorNet_def stubNet_def apiGetRequest_def buildRequest_def
      buildAuthorizationHeader_def extractVersion_def stringField_def release_def)

subsection \<open>The asset search\<close>










section \<open>Properties of the version manager\<close>

subsection \<open>The sort\<close>

lemma mset_moveLeft: "mset (moveLeft cmp x ys) = add_mset x (mset ys)"
  by (induction ys) auto

lemma set_moveLeft: "set (moveLeft cmp x ys) = insert x (set ys)"
  using mset_moveLeft[of cmp x ys] by (metis set_mset_add_mset_insert set_mset_mset)

lemma mset_foldl_moveLeft:
  "mset (foldl (\<lambda>done x. moveLeft cmp x done) acc xs) = mset acc + mset xs"
  by (induction xs arbitrary: acc) (simp_all add: mset_moveLeft)

lemma mset_SortFunc: "mset (SortFunc cmp xs) = mset xs"
  by (simp add: SortFunc_def mset_foldl_moveLeft)

lemma set_SortFunc: "set (SortFunc cmp xs) = set xs"
  using mset_SortFunc[of cmp xs] by (metis set_mset_mset)

lemma weakOrderOn_flip: "weakOrderOn S cmp \<Longrightarrow> weakOrderOn S (\<lambda>a b. cmp b a)"
  unfolding weakOrderOn_def by blast

lemma weakOrderOn_subset: "weakOrderOn S cmp \<Longrightarrow> T \<subseteq> S \<Longrightarrow> weakOrderOn T cmp"
  unfolding weakOrderOn_def by blast

lemma sorted_moveLeft:
  assumes "weakOrderOn S cmp" and "x \<in> S" and "set ys \<subseteq> S"
    and "sorted_wrt (\<lambda>a b. cmp b a \<le> 0) ys"
  shows "sorted_wrt (\<lambda>a b. cmp b a \<le> 0) (moveLeft cmp x ys)"
  using assms(3,4)
proof (induction ys)
  case Nil
  then show ?case by simp
next
  case (Cons y ys)
  have y: "y \<in> S" and ys: "set ys \<subseteq> S" using Cons.prems(1) by auto
  show ?case
  proof (cases "cmp x y < 0")
    case True
    have "sorted_wrt (\<lambda>a b. cmp b a \<le> 0) (moveLeft cmp x ys)"
      using Cons.IH ys Cons.prems(2) by simp
    moreover have "\<forall>z\<in>set (moveLeft cmp x ys). cmp z y \<le> 0"
      using True Cons.prems(2) by (auto simp: set_moveLeft)
    ultimately show ?thesis using True by simp
  next
    case False
    have yx: "cmp y x \<le> 0"
      using False assms(1,2) y unfolding weakOrderOn_def by (metis not_le)
    have "cmp z x \<le> 0" if "z \<in> set ys" for z
    proof -
      have "cmp z y \<le> 0" using that Cons.prems(2) by simp
      moreover have "z \<in> S" using that ys by blast
      ultimately show ?thesis
        using yx assms(1,2) y unfolding weakOrderOn_def by blast
    qed
    with yx False Cons.prems(2) show ?thesis by simp
  qed
qed

lemma sorted_foldl_moveLeft:
  assumes "weakOrderOn S cmp"
  shows "set acc \<subseteq> S \<Longrightarrow> set xs \<subseteq> S \<Longrightarrow> sorted_wrt (\<lambda>a b. cmp b a \<le> 0) acc \<Longrightarrow>
         sorted_wrt (\<lambda>a b. cmp b a \<le> 0) (foldl (\<lambda>done x. moveLeft cmp x done) acc xs)"
proof (induction xs arbitrary: acc)
  case Nil
  then show ?case by simp
next
  case (Cons x xs)
  have "sorted_wrt (\<lambda>a b. cmp b a \<le> 0) (moveLeft cmp x acc)"
    using sorted_moveLeft[OF assms, of x acc] Cons.prems by simp
  moreover have "set (moveLeft cmp x acc) \<subseteq> S"
    using Cons.prems by (simp add: set_moveLeft)
  ultimately show ?case using Cons.IH Cons.prems(2) by simp
qed

lemma sorted_SortFunc:
  "weakOrderOn (set xs) cmp \<Longrightarrow> sorted_wrt (\<lambda>a b. cmp a b \<le> 0) (SortFunc cmp xs)"
  using sorted_foldl_moveLeft[of "set xs" cmp "[]" xs]
  by (simp add: SortFunc_def sorted_wrt_rev)

lemma sorted_wrt_unique:
  assumes "\<And>a b. a \<in> set xs \<Longrightarrow> b \<in> set xs \<Longrightarrow> R a b \<Longrightarrow> R b a \<Longrightarrow> a = b"
  shows "sorted_wrt R xs \<Longrightarrow> sorted_wrt R ys \<Longrightarrow> mset xs = mset ys \<Longrightarrow> xs = ys"
  using assms
proof (induction xs arbitrary: ys)
  case Nil
  then show ?case by simp
next
  case (Cons x xs)
  from Cons.prems(3) obtain y ys' where ys: "ys = y # ys'"
    by (cases ys) auto
  have sets: "set (x # xs) = set ys"
    using Cons.prems(3) by (metis set_mset_mset)
  have "x = y"
  proof (rule ccontr)
    assume ne: "x \<noteq> y"
    then have "x \<in> set ys'" using sets ys by auto
    then have "R y x" using Cons.prems(2) ys by simp
    moreover have "y \<in> set xs" using sets ys ne by auto
    then have "R x y" using Cons.prems(1) by simp
    moreover have "y \<in> set (x # xs)" using sets ys by simp
    ultimately show False using Cons.prems(4)[of x y] ne by simp
  qed
  moreover have "xs = ys'"
  proof (rule Cons.IH)
    show "sorted_wrt R xs" using Cons.prems(1) by simp
    show "sorted_wrt R ys'" using Cons.prems(2) ys by simp
    show "mset xs = mset ys'" using Cons.prems(3) ys \<open>x = y\<close> by simp
    show "\<And>a b. a \<in> set xs \<Longrightarrow> b \<in> set xs \<Longrightarrow> R a b \<Longrightarrow> R b a \<Longrightarrow> a = b"
      using Cons.prems(4) by simp
  qed
  ultimately show ?case using ys by simp
qed

lemma SortFunc_reversed:
  assumes "weakOrderOn (set xs) cmp" and "noTies (set xs) cmp"
  shows "SortFunc (\<lambda>a b. cmp b a) xs = rev (SortFunc cmp xs)"
proof (rule sorted_wrt_unique[where R = "\<lambda>a b. cmp b a \<le> 0"])
  show "sorted_wrt (\<lambda>a b. cmp b a \<le> 0) (SortFunc (\<lambda>a b. cmp b a) xs)"
    using sorted_SortFunc[OF weakOrderOn_flip[OF assms(1)]] .
  show "sorted_wrt (\<lambda>a b. cmp b a \<le> 0) (rev (SortFunc cmp xs))"
    using sorted_SortFunc[OF assms(1)] by (simp add: sorted_wrt_rev)
  show "mset (SortFunc (\<lambda>a b. cmp b a) xs) = mset (rev (SortFunc cmp xs))"
    by (simp add: mset_SortFunc)
next
  fix a b
  assume "a \<in> set (SortFunc (\<lambda>a b. cmp b a) xs)" "b \<in> set (SortFunc (\<lambda>a b. cmp b a) xs)"
    and "cmp b a \<le> 0" "cmp a b \<le> 0"
  then have ab: "a \<in> set xs" "b \<in> set xs" by (simp_all add: set_SortFunc)
  have "cmp a b = 0"
  proof (rule ccontr)
    assume "cmp a b \<noteq> 0"
    with \<open>cmp a b \<le> 0\<close> have "cmp a b < 0" by simp
    then have "0 < cmp b a" using assms(1) ab unfolding weakOrderOn_def by blast
    with \<open>cmp b a \<le> 0\<close> show False by simp
  qed
  then show "a = b" using assms(2) ab unfolding noTies_def by blast
qed

subsection \<open>The local inventory\<close>

lemma child_path: "q \<noteq> [] \<and> butlast q = p \<and> last q = name \<longleftrightarrow> q = p @ [name]"
  by (metis append_butlast_last_id butlast_snoc last_snoc snoc_eq_iff_butlast)

lemma readDir_directories:
  assumes "osReadDir w p = Inr entries"
  shows "set (map fst (filter snd entries)) = subdirectories w p"
proof -
  let ?cj = "AList.clearjunk (files w)"
  have entries: "entries = sort_key fst
      (map (\<lambda>(q, n). (last q, n = Dir)) (filter (\<lambda>(q, n). q \<noteq> [] \<and> butlast q = p) ?cj))"
    using assms by (auto simp: osReadDir_def split: if_splits option.splits node.splits)
  have "name \<in> set (map fst (filter snd entries)) \<longleftrightarrow> name \<in> subdirectories w p" for name
  proof -
    have "name \<in> set (map fst (filter snd entries)) \<longleftrightarrow>
          (\<exists>q. q \<noteq> [] \<and> butlast q = p \<and> last q = name \<and> (q, Dir) \<in> set ?cj)"
      unfolding entries by force
    also have "\<dots> \<longleftrightarrow> (p @ [name], Dir) \<in> set ?cj"
      using child_path[of _ p name] by metis
    also have "\<dots> \<longleftrightarrow> map_of ?cj (p @ [name]) = Some Dir"
      using distinct_clearjunk[of "files w"] by (metis map_of_eq_Some_iff)
    also have "\<dots> \<longleftrightarrow> name \<in> subdirectories w p"
      by (simp add: subdirectories_def map_of_clearjunk)
    finally show ?thesis .
  qed
  then show ?thesis by blast
qed

lemma readDir_distinct:
  assumes "osReadDir w p = Inr entries"
  shows "distinct (map fst (filter snd entries))"
proof -
  let ?cj = "AList.clearjunk (files w)"
  let ?kids = "filter (\<lambda>(q, n). q \<noteq> [] \<and> butlast q = p) ?cj"
  let ?listed = "map (\<lambda>(q, n). (last q, n = Dir)) ?kids"
  have entries: "entries = sort_key fst ?listed"
    using assms by (auto simp: osReadDir_def split: if_splits option.splits node.splits)
  have keys: "distinct (map fst ?kids)"
    using distinct_clearjunk[of "files w"] by (simp add: distinct_map_filter)
  have "inj_on last (set (map fst ?kids))"
  proof (rule inj_onI)
    fix q1 q2
    assume "q1 \<in> set (map fst ?kids)" "q2 \<in> set (map fst ?kids)" "last q1 = last q2"
    then have "q1 \<noteq> [] \<and> butlast q1 = p" "q2 \<noteq> [] \<and> butlast q2 = p" by auto
    with \<open>last q1 = last q2\<close> show "q1 = q2"
      using child_path[of q1 p "last q1"] child_path[of q2 p "last q1"] by simp
  qed
  with keys have "distinct (map last (map fst ?kids))"
    using distinct_map[of last "map fst ?kids"] by blast
  then have names: "distinct (map fst ?listed)"
    by (simp add: comp_def case_prod_beta)
  have "mset (map fst (filter snd entries)) = mset (map fst (filter snd ?listed))"
    unfolding entries by simp
  moreover have "distinct (map fst (filter snd ?listed))"
    using names by (simp add: distinct_map_filter)
  ultimately show ?thesis
    using mset_eq_imp_distinct_iff by blast
qed

text \<open>
  C9, as amended. For an install path whose directory can be read, and a comparator that
  orders the names found there, \<open>innerListLocal\<close> with \<open>reverseOrder = false\<close> returns exactly
  the names of the direct sub-directories, each once, in ascending order; with
  \<open>reverseOrder = true\<close> it returns the same names in descending order, and that list is the
  exact reversal of the ascending one when no two distinct names compare equal.
\<close>

theorem local_inventory_sorted:
  assumes "osReadDir w installPath = Inr entries"
    and "weakOrderOn (subdirectories w installPath) (cmpVersion X)"
  shows "\<exists>versions versions'.
     innerListLocal X installPath False w = (versions, None) \<and>
     set versions = subdirectories w installPath \<and> distinct versions \<and>
     sorted_wrt (\<lambda>a b. cmpVersion X a b \<le> 0) versions \<and>
     innerListLocal X installPath True w = (versions', None) \<and>
     mset versions' = mset versions \<and>
     sorted_wrt (\<lambda>a b. cmpVersion X b a \<le> 0) versions' \<and>
     (noTies (subdirectories w installPath) (cmpVersion X) \<longrightarrow> versions' = rev versions)"
proof -
  let ?names = "map fst (filter snd entries)"
  let ?up = "SortFunc (cmpVersion X) ?names"
  let ?down = "SortFunc (\<lambda>a b. cmpVersion X b a) ?names"
  have names: "set ?names = subdirectories w installPath"
    using readDir_directories[OF assms(1)] .
  have order: "weakOrderOn (set ?names) (cmpVersion X)"
    using assms(2) names by simp
  have "innerListLocal X installPath False w = (?up, None)"
    using assms(1) by (simp add: innerListLocal_def Reverser_def)
  moreover have "set ?up = subdirectories w installPath"
    using names by (simp add: set_SortFunc)
  moreover have "distinct ?up"
    using readDir_distinct[OF assms(1)] mset_SortFunc[of "cmpVersion X" ?names]
      mset_eq_imp_distinct_iff by blast
  moreover have "sorted_wrt (\<lambda>a b. cmpVersion X a b \<le> 0) ?up"
    using sorted_SortFunc[OF order] .
  moreover have "innerListLocal X installPath True w = (?down, None)"
    using assms(1) by (simp add: innerListLocal_def Reverser_def)
  moreover have "mset ?down = mset ?up"
    by (simp add: mset_SortFunc)
  moreover have "sorted_wrt (\<lambda>a b. cmpVersion X b a \<le> 0) ?down"
    using sorted_SortFunc[OF weakOrderOn_flip[OF order]] .
  moreover have "noTies (subdirectories w installPath) (cmpVersion X) \<longrightarrow> ?down = rev ?up"
    using SortFunc_reversed[OF order] names by simp
  ultimately show ?thesis by blast
qed

lemma cmpDotted_installed:
  "cmpDotted ''1.5.0'' ''1.5.0'' = 0" "cmpDotted ''1.5.0'' ''1.5.7'' = - 1"
  "cmpDotted ''1.5.7'' ''1.5.0'' = 1" "cmpDotted ''1.5.7'' ''1.5.7'' = 0"
  by (simp_all add: cmpDotted_def digitValue_def)

lemma readDir_installedWorld:
  "osReadDir installedWorld [''home'', ''.tenv'', ''OpenTofu''] =
     Inr [(''1.5.0'', True), (''1.5.7'', True), (''version'', False)]"
  by (simp add: osReadDir_def installedWorld_def baseWorld_def AList.delete_eq)

theorem local_inventory_sorted_witness:
  "innerListLocal stubExt [''home'', ''.tenv'', ''OpenTofu''] False installedWorld = ([''1.5.0'', ''1.5.7''], None) \<and>
   innerListLocal stubExt [''home'', ''.tenv'', ''OpenTofu''] True installedWorld = (rev [''1.5.0'', ''1.5.7''], None) \<and>
   subdirectories installedWorld [''home'', ''.tenv'', ''OpenTofu''] = {''1.5.0'', ''1.5.7''}"
proof -
  let ?p = "[''home'', ''.tenv'', ''OpenTofu'']"
  have dirs: "subdirectories installedWorld ?p = {''1.5.0'', ''1.5.7''}"
    using readDir_directories[OF readDir_installedWorld] by auto
  have cmp: "cmpVersion stubExt = cmpDotted" by (simp add: stubExt_def)
  have order: "weakOrderOn (subdirectories installedWorld ?p) (cmpVersion stubExt)"
    unfolding dirs cmp weakOrderOn_def by (simp add: cmpDotted_installed)
  have noties: "noTies (subdirectories installedWorld ?p) (cmpVersion stubExt)"
    unfolding dirs cmp noTies_def by (simp add: cmpDotted_installed)
  from local_inventory_sorted[OF readDir_installedWorld order] noties
  obtain versions where
    up: "innerListLocal stubExt ?p False installedWorld = (versions, None)" and
    down: "innerListLocal stubExt ?p True installedWorld = (rev versions, None)"
    by blast
  have "innerListLocal stubExt ?p False installedWorld = ([''1.5.0'', ''1.5.7''], None)"
    by (simp add: innerListLocal_def readDir_installedWorld Reverser_def SortFunc_def cmp cmpDotted_installed)
  with up down dirs show ?thesis by simp
qed

text \<open>
  C9 as stated fails: the directories \<open>1.0\<close> and \<open>1.0.0\<close> compare equal, the sort leaves them
  in the order of the directory listing for both values of \<open>reverseOrder\<close>, and the list for
  \<open>true\<close> is not the reversal of the list for \<open>false\<close>.
\<close>

theorem reversed_inventory_is_not_the_reversal:
  "innerListLocal stubExt [''home'', ''.tenv'', ''OpenTofu''] False tiedWorld = ([''1.0'', ''1.0.0''], None) \<and>
   innerListLocal stubExt [''home'', ''.tenv'', ''OpenTofu''] True tiedWorld = ([''1.0'', ''1.0.0''], None) \<and>
   fst (innerListLocal stubExt [''home'', ''.tenv'', ''OpenTofu''] True tiedWorld)
     \<noteq> rev (fst (innerListLocal stubExt [''home'', ''.tenv'', ''OpenTofu''] False tiedWorld))"
proof -
  have listing: "osReadDir tiedWorld [''home'', ''.tenv'', ''OpenTofu''] = Inr [(''1.0'', True), (''1.0.0'', True)]"
    by (simp add: osReadDir_def tiedWorld_def baseWorld_def AList.delete_eq)
  have tie: "cmpDotted ''1.0.0'' ''1.0'' = 0" "cmpDotted ''1.0'' ''1.0.0'' = 0"
    by (simp_all add: cmpDotted_def digitValue_def)
  have "innerListLocal stubExt [''home'', ''.tenv'', ''OpenTofu''] False tiedWorld = ([''1.0'', ''1.0.0''], None)"
    by (simp add: innerListLocal_def listing Reverser_def SortFunc_def stubExt_def tie)
  moreover have "innerListLocal stubExt [''home'', ''.tenv'', ''OpenTofu''] True tiedWorld = ([''1.0'', ''1.0.0''], None)"
    by (simp add: innerListLocal_def listing Reverser_def SortFunc_def stubExt_def tie)
  ultimately show ?thesis by simp
qed

subsection \<open>The resolver\<close>

lemma sourcesRead_append: "sourcesRead (es @ es') = sourcesRead es @ sourcesRead es'"
  by (induction es rule: sourcesRead.induct) simp_all

text \<open>
  C3. \<open>Resolve\<close> is the first-non-empty search over the environment variable
  \<open>VersionEnvName\<close>, the version files, the environment variable \<open>defaultVersionEnvName\<close>
  and the flat file \<open>version\<close> under the root, in this order, with the default strategy as
  the fallback: it returns what the first source with a non-empty value or an error
  returns, and the sources it has read are exactly those up to that one. It changes neither
  the environment nor the files.
\<close>

theorem resolve_is_first_non_empty:
  "fst (Resolve X m defaultStrategy w) =
     fst (firstNonEmpty (readSource X m w) (resolverSources m) defaultStrategy) \<and>
   sourcesRead (events (snd (Resolve X m defaultStrategy w))) =
     sourcesRead (events w) @ snd (firstNonEmpty (readSource X m w) (resolverSources m) defaultStrategy) \<and>
   environ (snd (Resolve X m defaultStrategy w)) = environ w \<and>
   files (snd (Resolve X m defaultStrategy w)) = files w"
  by (simp add: Resolve_def ResolveWithVersionFiles_def DisplayDetectionInfo_def resolverSources_def
      readSource_def RootVersionFilePath_def emit_def sourcesRead_append Let_def split: prod.splits)

theorem resolve_is_first_non_empty_witness:
  "fst (Resolve stubExt tofuManager ''latest-allowed'' precedenceWorld) = (''1.5.0'', None) \<and>
   sourcesRead (events (snd (Resolve stubExt tofuManager ''latest-allowed'' precedenceWorld)))
     = [EnvVar ''TOFUENV_TOFU_VERSION''] \<and>
   fst (Resolve stubExt tofuManager ''latest-allowed'' (precedenceWorld\<lparr>environ := (\<lambda>name. '''')\<rparr>))
     = (''1.6.0'', None) \<and>
   sourcesRead (events (snd (Resolve stubExt tofuManager ''latest-allowed''
       (precedenceWorld\<lparr>environ := (\<lambda>name. '''')\<rparr>))))
     = [EnvVar ''TOFUENV_TOFU_VERSION'', VersionFileScan] \<and>
   fst (Resolve (stubExt\<lparr>semanticRetrieveVersion := (\<lambda>vfs env fs. ('''', Some (ErrExternal ''unreadable'')))\<rparr>)
         tofuManager ''latest-allowed'' (baseWorld []))
     = ('''', Some (ErrExternal ''unreadable'')) \<and>
   fst (Resolve stubExt tofuManager ''latest-allowed'' (baseWorld [])) = (''latest-allowed'', None) \<and>
   sourcesRead (events (snd (Resolve stubExt tofuManager ''latest-allowed'' (baseWorld []))))
     = [EnvVar ''TOFUENV_TOFU_VERSION'', VersionFileScan, EnvVar ''TOFUENV_TOFU_DEFAULT_VERSION'',
        FlatFile [''home'', ''.tenv'', ''OpenTofu'', ''version'']]"
  using resolve_is_first_non_empty[of stubExt tofuManager "''latest-allowed''" precedenceWorld]
    resolve_is_first_non_empty[of stubExt tofuManager "''latest-allowed''"
      "precedenceWorld\<lparr>environ := (\<lambda>name. '''')\<rparr>"]
    resolve_is_first_non_empty[of
      "stubExt\<lparr>semanticRetrieveVersion := (\<lambda>vfs env fs. ('''', Some (ErrExternal ''unreadable'')))\<rparr>"
      tofuManager "''latest-allowed''" "baseWorld []"]
    resolve_is_first_non_empty[of stubExt tofuManager "''latest-allowed''" "baseWorld []"]
  by (simp add: readSource_def resolverSources_def tofuManager_def precedenceWorld_def stubExt_def
      baseWorld_def filepathJoin_def)

subsection \<open>Files and events\<close>

lemma mkdirFrom_longer:
  "length (parent @ rest) < length q \<Longrightarrow> mkdirFrom unr parent rest fs = (e, fs') \<Longrightarrow>
   map_of fs' q = map_of fs q"
proof (induction rest arbitrary: parent fs)
  case Nil
  then show ?case by simp
next
  case (Cons name rest)
  have ne: "parent @ [name] \<noteq> q" using Cons.prems(1) by auto
  have len: "length ((parent @ [name]) @ rest) < length q" using Cons.prems(1) by simp
  show ?case
  proof (cases "map_of fs (parent @ [name])")
    case None
    show ?thesis
    proof (cases "parent \<in> set unr")
      case True
      with Cons.prems(2) None show ?thesis by simp
    next
      case False
      with Cons.prems(2) None
      have "mkdirFrom unr (parent @ [name]) rest (AList.update (parent @ [name]) Dir fs) = (e, fs')"
        by simp
      from Cons.IH[OF len this] ne show ?thesis by (simp add: update_conv')
    qed
  next
    case (Some n)
    show ?thesis
    proof (cases n)
      case Dir
      with Cons.prems(2) Some have "mkdirFrom unr (parent @ [name]) rest fs = (e, fs')" by simp
      from Cons.IH[OF len this] show ?thesis .
    next
      case (File c)
      with Cons.prems(2) Some show ?thesis by simp
    qed
  qed
qed

lemma osMkdirAll_keeps:
  assumes "osMkdirAll w p = (e, w')"
  shows "map_of (files w') (p @ [name]) = map_of (files w) (p @ [name])"
    and "unreadable w' = unreadable w" and "events w' = events w" and "environ w' = environ w"
proof -
  show "map_of (files w') (p @ [name]) = map_of (files w) (p @ [name])"
  proof (cases "p = []")
    case True
    with assms show ?thesis by (simp add: osMkdirAll_def)
  next
    case False
    obtain e1 fs1 where mk: "mkdirFrom (unreadable w) [] p (files w) = (e1, fs1)"
      by (cases "mkdirFrom (unreadable w) [] p (files w)")
    with assms False have "files w' = fs1" by (auto simp: osMkdirAll_def)
    with mkdirFrom_longer[OF _ mk, of "p @ [name]"] show ?thesis by simp
  qed
  show "unreadable w' = unreadable w" "events w' = events w" "environ w' = environ w"
    using assms by (auto simp: osMkdirAll_def split: if_splits prod.splits)
qed

lemma InstallPath_keeps:
  assumes "InstallPath m w = ((installPath, e), w')"
  shows "installPath = filepathJoin (RootPath (conf m)) (FolderName m)"
    and "map_of (files w') (installPath @ [name]) = map_of (files w) (installPath @ [name])"
    and "unreadable w' = unreadable w" and "events w' = events w" and "environ w' = environ w"
    and "e = None \<Longrightarrow> installPath \<noteq> []"
proof -
  obtain e1 w1 where mk: "osMkdirAll w (filepathJoin (RootPath (conf m)) (FolderName m)) = (e1, w1)"
    by (cases "osMkdirAll w (filepathJoin (RootPath (conf m)) (FolderName m))")
  with assms have eq: "installPath = filepathJoin (RootPath (conf m)) (FolderName m)" "e = e1" "w' = w1"
    by (simp_all add: InstallPath_def Let_def)
  show "installPath = filepathJoin (RootPath (conf m)) (FolderName m)" by (rule eq(1))
  show "map_of (files w') (installPath @ [name]) = map_of (files w) (installPath @ [name])"
    "unreadable w' = unreadable w" "events w' = events w" "environ w' = environ w"
    using osMkdirAll_keeps[OF mk] eq by simp_all
  show "e = None \<Longrightarrow> installPath \<noteq> []"
    using mk eq by (auto simp: osMkdirAll_def)
qed

lemma retrieverCalls_emit:
  "retrieverCalls (emit e w) = retrieverCalls w @ (if isRetrieverCall e then [e] else [])"
  by (simp add: retrieverCalls_def emit_def)

lemma files_emit [simp]: "files (emit e w) = files w" "unreadable (emit e w) = unreadable w"
  "environ (emit e w) = environ w" "events (emit e w) = events w @ [e]"
  by (simp_all add: emit_def)

lemma checkVersionInstallation_world:
  assumes "checkVersionInstallation m [] version w = (r, w')"
  shows "\<exists>e. InstallPath m w = ((filepathJoin (RootPath (conf m)) (FolderName m), e), w')"
proof -
  obtain p e w1 where ip: "InstallPath m w = ((p, e), w1)"
    by (cases "InstallPath m w") auto
  have "w' = w1"
    using assms ip by (cases e) (auto simp: checkVersionInstallation_def split: option.splits if_splits)
  with ip InstallPath_keeps(1)[OF ip] show ?thesis by simp
qed

lemma autoInstallDisabledMsg_keeps:
  assumes "autoInstallDisabledMsg m version w = (e, w')"
  shows "e = ErrNoCompatibleLocally" and "files w' = files w"
    and "retrieverCalls w' = retrieverCalls w"
  using assms by (auto simp: autoInstallDisabledMsg_def Let_def retrieverCalls_emit)

lemma checkVersionInstallation_at:
  "installPath \<noteq> [] \<Longrightarrow>
   checkVersionInstallation m installPath version w =
     (case osStat w (filepathJoin installPath version) of
        None \<Rightarrow> ((installPath, True, None), w)
      | Some e \<Rightarrow> if e = ErrOS ENOENT then ((installPath, False, None), w) else (([], False, Some e), w))"
  by (simp add: checkVersionInstallation_def split: option.splits)

lemma checkVersionInstallation_first:
  assumes "InstallPath m w = ((installPath, e), w1)"
  shows "checkVersionInstallation m [] version w =
     (case e of
        Some e' \<Rightarrow> (([], False, Some e'), w1)
      | None \<Rightarrow>
          (case osStat w1 (filepathJoin installPath version) of
             None \<Rightarrow> ((installPath, True, None), w1)
           | Some e' \<Rightarrow> if e' = ErrOS ENOENT then ((installPath, False, None), w1) else (([], False, Some e'), w1)))"
  using assms by (simp add: checkVersionInstallation_def split: option.splits)

lemma osStat_present:
  "osStat w p \<noteq> Some (ErrOS ENOENT) \<longleftrightarrow> butlast p \<in> set (unreadable w) \<or> map_of (files w) p \<noteq> None"
  by (auto simp: osStat_def split: option.splits)

lemma osStat_emit: "osStat (emit e w) p = osStat w p"
  by (simp add: osStat_def)

lemma osStat_None: "osStat w p = None \<Longrightarrow> map_of (files w) p \<noteq> None"
  by (auto simp: osStat_def split: option.splits if_splits)

lemma alreadyInstalledMsg_keeps:
  "files (alreadyInstalledMsg m version proxyCall w) = files w"
  "retrieverCalls (alreadyInstalledMsg m version proxyCall w) = retrieverCalls w"
  by (simp_all add: alreadyInstalledMsg_def retrieverCalls_emit)

lemma InstallPath_tofu_installedWorld:
  "InstallPath tofuManager installedWorld = (([''home'', ''.tenv'', ''OpenTofu''], None), installedWorld)"
  by (simp add: InstallPath_def tofuManager_def filepathJoin_def osMkdirAll_def
      installedWorld_def baseWorld_def Let_def)



subsection \<open>The presence test\<close>

text \<open>
  C10. Whenever the install path can be made and searched and any entry named after the
  version exists in it, a directory or a plain file, the presence test answers "installed";
  then \<open>Evaluate\<close> (with \<open>NoInstall\<close>) returns the version without error, and
  \<open>installSpecificVersion\<close> returns success after the already-installed message, with no
  call of the retriever and without taking the lock.
\<close>

theorem any_entry_counts_as_installed:
  assumes "version \<noteq> ''''"
    and "InstallPath m w = ((installPath, None), w1)"
    and "installPath \<notin> set (unreadable w)"
    and "map_of (files w) (installPath @ [version]) = Some entry"
  shows "checkVersionInstallation m [] version w = ((installPath, True, None), w1) \<and>
         installSpecificVersion m version proxyCall w = (None, alreadyInstalledMsg m version proxyCall w1) \<and>
         events (alreadyInstalledMsg m version proxyCall w1) =
           events w @ [Display (FolderName m @ '' '' @ version @ '' already installed''), Flush proxyCall] \<and>
         retrieverCalls (snd (installSpecificVersion m version proxyCall w)) = retrieverCalls w \<and>
         (newVersion X requested = Some version \<and> NoInstall (conf m) \<longrightarrow>
            Evaluate X m requested proxyCall w = ((version, None), emit (Flush proxyCall) w1))"
proof -
  note keeps = InstallPath_keeps[OF assms(2)]
  have stat: "osStat w1 (filepathJoin installPath version) = None"
    using assms(1,3,4) keeps(2)[of version] keeps(3)
    by (simp add: osStat_def filepathJoin_def)
  have check: "checkVersionInstallation m [] version w = ((installPath, True, None), w1)"
    using assms(2) stat by (simp add: checkVersionInstallation_def)
  have inst: "installSpecificVersion m version proxyCall w = (None, alreadyInstalledMsg m version proxyCall w1)"
    using assms(1) check by (simp add: installSpecificVersion_def)
  have ev: "events (alreadyInstalledMsg m version proxyCall w1) =
           events w @ [Display (FolderName m @ '' '' @ version @ '' already installed''), Flush proxyCall]"
    using keeps(4) by (simp add: alreadyInstalledMsg_def)
  have calls: "retrieverCalls (snd (installSpecificVersion m version proxyCall w)) = retrieverCalls w"
    using inst ev by (simp add: retrieverCalls_def)
  have "newVersion X requested = Some version \<and> NoInstall (conf m) \<longrightarrow>
            Evaluate X m requested proxyCall w = ((version, None), emit (Flush proxyCall) w1)"
    using check by (simp add: Evaluate_def)
  with check inst ev calls show ?thesis by blast
qed

lemma InstallPath_plainFileWorld:
  "InstallPath tofuManager plainFileWorld = (([''home'', ''.tenv'', ''OpenTofu''], None), plainFileWorld)"
  "InstallPath noInstallManager plainFileWorld = (([''home'', ''.tenv'', ''OpenTofu''], None), plainFileWorld)"
  by (simp_all add: InstallPath_def noInstallManager_def tofuManager_def filepathJoin_def osMkdirAll_def
      plainFileWorld_def baseWorld_def Let_def)

theorem any_entry_counts_as_installed_witness:
  "map_of (files plainFileWorld) ([''home'', ''.tenv'', ''OpenTofu''] @ [''1.6.2'']) = Some (File ''not a directory'') \<and>
   checkVersionInstallation tofuManager [] ''1.6.2'' plainFileWorld
     = (([''home'', ''.tenv'', ''OpenTofu''], True, None), plainFileWorld) \<and>
   installSpecificVersion tofuManager ''1.6.2'' False plainFileWorld
     = (None, alreadyInstalledMsg tofuManager ''1.6.2'' False plainFileWorld) \<and>
   retrieverCalls (snd (installSpecificVersion tofuManager ''1.6.2'' False plainFileWorld)) = [] \<and>
   Evaluate stubExt noInstallManager ''v1.6.2'' False plainFileWorld
     = ((''1.6.2'', None), emit (Flush False) plainFileWorld)"
proof -
  have entry: "map_of (files plainFileWorld) ([''home'', ''.tenv'', ''OpenTofu''] @ [''1.6.2''])
      = Some (File ''not a directory'')"
    by (simp add: plainFileWorld_def baseWorld_def)
  have readable: "[''home'', ''.tenv'', ''OpenTofu''] \<notin> set (unreadable plainFileWorld)"
    by (simp add: plainFileWorld_def baseWorld_def)
  have parsed: "newVersion stubExt ''v1.6.2'' = Some ''1.6.2''" "NoInstall (conf noInstallManager)"
    by (simp_all add: stubExt_def dropLeadingV_def digitValue_def noInstallManager_def)
  have none: "retrieverCalls plainFileWorld = []"
    by (simp add: retrieverCalls_def plainFileWorld_def baseWorld_def)
  show ?thesis
    using any_entry_counts_as_installed[OF _ InstallPath_plainFileWorld(1) readable entry,
        of False stubExt "''v1.6.2''"]
      any_entry_counts_as_installed[OF _ InstallPath_plainFileWorld(2) readable entry,
        of False stubExt "''v1.6.2''"]
      entry parsed none
    by (simp add: alreadyInstalledMsg_def retrieverCalls_emit)
qed

subsection \<open>The auto-install gate\<close>

text \<open>
  C5. For a request that parses as a concrete version, with \<open>NoInstall\<close> set: when the
  entry of the canonical version exists under the install path, \<open>Evaluate\<close> returns the
  canonical version and no error; when it does not exist, \<open>Evaluate\<close> returns the canonical
  version paired with \<open>ErrNoCompatibleLocally\<close>. In every case no entry under the install
  path is created or changed, and the retriever is not called.
\<close>

theorem no_install_gate:
  assumes "newVersion X requested = Some cleaned" and "NoInstall (conf m)"
  shows
    "(InstallPath m w = ((installPath, None), w1) \<and> osStat w1 (filepathJoin installPath cleaned) = None \<longrightarrow>
        Evaluate X m requested proxyCall w = ((cleaned, None), emit (Flush proxyCall) w1)) \<and>
     (InstallPath m w = ((installPath, None), w1) \<and>
      osStat w1 (filepathJoin installPath cleaned) = Some (ErrOS ENOENT) \<longrightarrow>
        fst (Evaluate X m requested proxyCall w) = (cleaned, Some ErrNoCompatibleLocally)) \<and>
     map_of (files (snd (Evaluate X m requested proxyCall w)))
         (filepathJoin (RootPath (conf m)) (FolderName m) @ [name]) =
       map_of (files w) (filepathJoin (RootPath (conf m)) (FolderName m) @ [name]) \<and>
     retrieverCalls (snd (Evaluate X m requested proxyCall w)) = retrieverCalls w"
proof (intro conjI impI)
  assume "InstallPath m w = ((installPath, None), w1) \<and> osStat w1 (filepathJoin installPath cleaned) = None"
  then show "Evaluate X m requested proxyCall w = ((cleaned, None), emit (Flush proxyCall) w1)"
    using assms by (simp add: Evaluate_def checkVersionInstallation_def)
next
  assume "InstallPath m w = ((installPath, None), w1) \<and>
      osStat w1 (filepathJoin installPath cleaned) = Some (ErrOS ENOENT)"
  then show "fst (Evaluate X m requested proxyCall w) = (cleaned, Some ErrNoCompatibleLocally)"
    using assms by (simp add: Evaluate_def checkVersionInstallation_def autoInstallDisabledMsg_def Let_def)
next
  obtain r w' where check: "checkVersionInstallation m [] cleaned w = (r, w')"
    by (cases "checkVersionInstallation m [] cleaned w")
  from checkVersionInstallation_world[OF check] obtain e
    where ip: "InstallPath m w = ((filepathJoin (RootPath (conf m)) (FolderName m), e), w')"
    by blast
  have same: "files (snd (Evaluate X m requested proxyCall w)) = files w'"
    "retrieverCalls (snd (Evaluate X m requested proxyCall w)) = retrieverCalls w'"
    using assms check
    by (auto simp: Evaluate_def retrieverCalls_emit dest: autoInstallDisabledMsg_keeps
        split: prod.splits option.splits bool.splits)
  show "map_of (files (snd (Evaluate X m requested proxyCall w)))
         (filepathJoin (RootPath (conf m)) (FolderName m) @ [name]) =
       map_of (files w) (filepathJoin (RootPath (conf m)) (FolderName m) @ [name])"
    using same(1) InstallPath_keeps(2)[OF ip] by simp
  show "retrieverCalls (snd (Evaluate X m requested proxyCall w)) = retrieverCalls w"
    using same(2) InstallPath_keeps(4)[OF ip] by (simp add: retrieverCalls_def)
qed

lemma InstallPath_installedWorld:
  "InstallPath noInstallManager installedWorld = (([''home'', ''.tenv'', ''OpenTofu''], None), installedWorld)"
  by (simp add: InstallPath_def noInstallManager_def tofuManager_def filepathJoin_def osMkdirAll_def
      installedWorld_def baseWorld_def Let_def)

theorem no_install_gate_witness:
  "Evaluate stubExt noInstallManager ''v1.5.7'' False installedWorld
     = ((''1.5.7'', None), emit (Flush False) installedWorld) \<and>
   fst (Evaluate stubExt noInstallManager ''v1.6.2'' False installedWorld)
     = (''1.6.2'', Some ErrNoCompatibleLocally) \<and>
   map_of (files (snd (Evaluate stubExt noInstallManager ''v1.6.2'' False installedWorld)))
     ([''home'', ''.tenv'', ''OpenTofu''] @ [''1.6.2'']) = None \<and>
   retrieverCalls (snd (Evaluate stubExt noInstallManager ''v1.6.2'' False installedWorld)) = []"
proof -
  have parsed: "newVersion stubExt ''v1.5.7'' = Some ''1.5.7''" "newVersion stubExt ''v1.6.2'' = Some ''1.6.2''"
    by (simp_all add: stubExt_def dropLeadingV_def digitValue_def)
  have gate: "NoInstall (conf noInstallManager)"
    by (simp add: noInstallManager_def)
  have path: "filepathJoin (RootPath (conf noInstallManager)) (FolderName noInstallManager)
      = [''home'', ''.tenv'', ''OpenTofu'']"
    by (simp add: noInstallManager_def tofuManager_def filepathJoin_def)
  have stat: "osStat installedWorld (filepathJoin [''home'', ''.tenv'', ''OpenTofu''] ''1.5.7'') = None"
    "osStat installedWorld (filepathJoin [''home'', ''.tenv'', ''OpenTofu''] ''1.6.2'') = Some (ErrOS ENOENT)"
    by (simp_all add: osStat_def filepathJoin_def installedWorld_def baseWorld_def)
  have before: "map_of (files installedWorld) ([''home'', ''.tenv'', ''OpenTofu''] @ [''1.6.2'']) = None"
    "retrieverCalls installedWorld = []"
    by (simp_all add: installedWorld_def baseWorld_def retrieverCalls_def)
  show ?thesis
    using no_install_gate[OF parsed(1) gate, of installedWorld "[''home'', ''.tenv'', ''OpenTofu'']"
        installedWorld False "''1.6.2''"]
      no_install_gate[OF parsed(2) gate, of installedWorld "[''home'', ''.tenv'', ''OpenTofu'']"
        installedWorld False "''1.6.2''"]
      InstallPath_installedWorld stat before path
    by simp
qed

subsection \<open>The installer\<close>

lemma present_no_retriever:
  assumes "version \<noteq> ''''"
    and "map_of (files w) (filepathJoin (RootPath (conf m)) (FolderName m) @ [version]) \<noteq> None"
  shows "retrieverCalls (snd (installSpecificVersion m version proxyCall w)) = retrieverCalls w"
proof -
  obtain p e w1 where ip: "InstallPath m w = ((p, e), w1)"
    by (cases "InstallPath m w") auto
  note keeps = InstallPath_keeps[OF ip]
  have calls: "retrieverCalls w1 = retrieverCalls w"
    using keeps(4) by (simp add: retrieverCalls_def)
  show ?thesis
  proof (cases e)
    case (Some e')
    then show ?thesis
      using assms(1) calls by (simp add: installSpecificVersion_def checkVersionInstallation_first[OF ip])
  next
    case None
    have "map_of (files w1) (p @ [version]) \<noteq> None"
      using assms(2) keeps(1) keeps(2)[of version] by simp
    then have "osStat w1 (filepathJoin p version) \<noteq> Some (ErrOS ENOENT)"
      using assms(1) by (simp add: osStat_present filepathJoin_def)
    then show ?thesis
      using assms(1) None calls
      by (auto simp: installSpecificVersion_def checkVersionInstallation_first[OF ip] alreadyInstalledMsg_keeps
          split: option.splits)
  qed
qed

lemma success_present:
  assumes "createsTarget (retriever m)"
    and "installSpecificVersion m version proxyCall w = (None, w')"
  shows "version \<noteq> ''''"
    and "map_of (files w') (filepathJoin (RootPath (conf m)) (FolderName m) @ [version]) \<noteq> None"
proof -
  show ne: "version \<noteq> ''''"
    using assms(2) by (auto simp: installSpecificVersion_def)
  obtain p e w1 where ip: "InstallPath m w = ((p, e), w1)"
    by (cases "InstallPath m w") auto
  note keeps = InstallPath_keeps[OF ip]
  have e: "e = None"
    using assms(2) ne by (cases e) (auto simp: installSpecificVersion_def checkVersionInstallation_first[OF ip])
  then have p: "p \<noteq> []" using keeps(6) by simp
  let ?target = "filepathJoin p version"
  have target: "?target = filepathJoin (RootPath (conf m)) (FolderName m) @ [version]"
    using ne keeps(1) by (simp add: filepathJoin_def)
  have "map_of (files w') ?target \<noteq> None"
  proof (cases "osStat w1 ?target")
    case None
    then have "w' = alreadyInstalledMsg m version proxyCall w1"
      using assms(2) ne e by (simp add: installSpecificVersion_def checkVersionInstallation_first[OF ip])
    with osStat_None[OF None] show ?thesis by (simp add: alreadyInstalledMsg_keeps)
  next
    case (Some e1)
    then have e1: "e1 = ErrOS ENOENT"
      using assms(2) ne e
      by (auto simp: installSpecificVersion_def checkVersionInstallation_first[OF ip] split: if_splits)
    let ?w2 = "lockWrite p w1"
    have stat2: "osStat ?w2 ?target = Some (ErrOS ENOENT)"
      using Some e1 by (simp add: lockWrite_def osStat_emit)
    obtain e2 fs where run: "retrieverInstallRelease (retriever m) version ?target
        (files (emit (CallInstallRelease version ?target)
           (emit (Display (''Installing '' @ FolderName m @ '' '' @ version)) (emit (Flush False) ?w2)))) = (e2, fs)"
      by (cases "retrieverInstallRelease (retriever m) version ?target
        (files (emit (CallInstallRelease version ?target)
           (emit (Display (''Installing '' @ FolderName m @ '' '' @ version)) (emit (Flush False) ?w2))))")
    have "e2 = None \<and> files w' = fs"
      using assms(2) ne e Some e1 stat2 run p
      by (auto simp: installSpecificVersion_def checkVersionInstallation_first[OF ip]
          checkVersionInstallation_at Let_def lockDelete_def split: if_splits)
    with run assms(1) show ?thesis
      unfolding createsTarget_def by (metis option.distinct(1))
  qed
  with target show "map_of (files w') (filepathJoin (RootPath (conf m)) (FolderName m) @ [version]) \<noteq> None"
    by simp
qed

text \<open>
  C1. \<open>installSpecificVersion\<close> rejects the empty version with \<open>ErrEmptyVersion\<close>. When the
  entry of the version exists under the install path at the first check, it returns success
  after the already-installed message, and the retriever is not called. Consequently, for a
  retriever that keeps its contract, a second \<open>Install\<close> of a version right after a successful
  \<open>Install\<close> of it calls the retriever not at all.
\<close>

theorem installer_first_check:
  "installSpecificVersion m '''' proxyCall w = (Some ErrEmptyVersion, emit (Flush proxyCall) w) \<and>
   (version \<noteq> '''' \<and> InstallPath m w = ((installPath, None), w1) \<and>
    osStat w1 (filepathJoin installPath version) = None \<longrightarrow>
      installSpecificVersion m version proxyCall w = (None, alreadyInstalledMsg m version proxyCall w1) \<and>
      events (alreadyInstalledMsg m version proxyCall w1) =
        events w @ [Display (FolderName m @ '' '' @ version @ '' already installed''), Flush proxyCall] \<and>
      retrieverCalls (alreadyInstalledMsg m version proxyCall w1) = retrieverCalls w) \<and>
   (createsTarget (retriever m) \<and> newVersion X requested = Some version \<and>
    Install X m requested w = (None, w') \<longrightarrow>
      retrieverCalls (snd (Install X m requested w')) = retrieverCalls w')"
proof (intro conjI impI)
  show "installSpecificVersion m '''' proxyCall w = (Some ErrEmptyVersion, emit (Flush proxyCall) w)"
    by (simp add: installSpecificVersion_def)
next
  assume h: "version \<noteq> '''' \<and> InstallPath m w = ((installPath, None), w1) \<and>
    osStat w1 (filepathJoin installPath version) = None"
  then have ip: "InstallPath m w = ((installPath, None), w1)" by simp
  show "installSpecificVersion m version proxyCall w = (None, alreadyInstalledMsg m version proxyCall w1)"
    using h by (simp add: installSpecificVersion_def checkVersionInstallation_first[OF ip])
  show "events (alreadyInstalledMsg m version proxyCall w1) =
        events w @ [Display (FolderName m @ '' '' @ version @ '' already installed''), Flush proxyCall]"
    using InstallPath_keeps(4)[OF ip] by (simp add: alreadyInstalledMsg_def)
  have "retrieverCalls w1 = retrieverCalls w"
    using InstallPath_keeps(4)[OF ip] by (simp add: retrieverCalls_def)
  then show "retrieverCalls (alreadyInstalledMsg m version proxyCall w1) = retrieverCalls w"
    by (simp add: alreadyInstalledMsg_keeps)
next
  assume h: "createsTarget (retriever m) \<and> newVersion X requested = Some version \<and>
    Install X m requested w = (None, w')"
  then have first: "installSpecificVersion m version False w = (None, w')"
    by (auto simp: Install_def)
  from h success_present[OF _ first]
  have "retrieverCalls (snd (installSpecificVersion m version False w')) = retrieverCalls w'"
    by (intro present_no_retriever) simp_all
  with h show "retrieverCalls (snd (Install X m requested w')) = retrieverCalls w'"
    by (auto simp: Install_def)
qed

lemma createsTarget_stubRetriever: "createsTarget (retriever tofuManager)"
  by (simp add: createsTarget_def tofuManager_def stubRetriever_def update_conv')

lemma first_install:
  "fst (Install stubExt tofuManager ''v1.6.2'' installedWorld) = None"
  "retrieverCalls (snd (Install stubExt tofuManager ''v1.6.2'' installedWorld)) =
     [CallInstallRelease ''1.6.2'' [''home'', ''.tenv'', ''OpenTofu'', ''1.6.2'']]"
proof -
  have parsed: "newVersion stubExt ''v1.6.2'' = Some ''1.6.2''"
    by (simp add: stubExt_def dropLeadingV_def digitValue_def)
  have absent: "osStat installedWorld (filepathJoin [''home'', ''.tenv'', ''OpenTofu''] ''1.6.2'') = Some (ErrOS ENOENT)"
    by (simp add: osStat_def filepathJoin_def installedWorld_def baseWorld_def)
  have run: "Install stubExt tofuManager ''v1.6.2'' installedWorld =
    (None, lockDelete [''home'', ''.tenv'', ''OpenTofu'']
       (emit (Display (''Installation of OpenTofu 1.6.2 successful''))
         ((emit (CallInstallRelease ''1.6.2'' [''home'', ''.tenv'', ''OpenTofu'', ''1.6.2''])
            (emit (Display ''Installing OpenTofu 1.6.2'')
              (emit (Flush False) (lockWrite [''home'', ''.tenv'', ''OpenTofu''] installedWorld))))
          \<lparr>files := AList.update [''home'', ''.tenv'', ''OpenTofu'', ''1.6.2''] Dir (files installedWorld)\<rparr>)))"
  proof -
    have check1: "checkVersionInstallation tofuManager [] ''1.6.2'' installedWorld =
        (([''home'', ''.tenv'', ''OpenTofu''], False, None), installedWorld)"
      using absent by (simp add: checkVersionInstallation_first[OF InstallPath_tofu_installedWorld])
    have check2: "checkVersionInstallation tofuManager [''home'', ''.tenv'', ''OpenTofu''] ''1.6.2''
          (lockWrite [''home'', ''.tenv'', ''OpenTofu''] installedWorld) =
        (([''home'', ''.tenv'', ''OpenTofu''], False, None), lockWrite [''home'', ''.tenv'', ''OpenTofu''] installedWorld)"
      using absent by (simp add: checkVersionInstallation_at lockWrite_def osStat_emit)
    have fields: "FolderName tofuManager = ''OpenTofu''"
      "retrieverInstallRelease (retriever tofuManager) = (\<lambda>version targetPath fs. (None, AList.update targetPath Dir fs))"
      by (simp_all add: tofuManager_def stubRetriever_def)
    show ?thesis
      using parsed
      by (simp add: Install_def installSpecificVersion_def check1 check2 fields Let_def filepathJoin_def)
        (simp add: lockWrite_def)
  qed
  show "fst (Install stubExt tofuManager ''v1.6.2'' installedWorld) = None"
    by (simp add: run)
  show "retrieverCalls (snd (Install stubExt tofuManager ''v1.6.2'' installedWorld)) =
     [CallInstallRelease ''1.6.2'' [''home'', ''.tenv'', ''OpenTofu'', ''1.6.2'']]"
    unfolding run
    by (simp add: retrieverCalls_def lockDelete_def lockWrite_def emit_def installedWorld_def baseWorld_def)
qed

theorem installer_first_check_witness:
  "installSpecificVersion tofuManager '''' True installedWorld
     = (Some ErrEmptyVersion, emit (Flush True) installedWorld) \<and>
   installSpecificVersion tofuManager ''1.5.7'' False installedWorld
     = (None, alreadyInstalledMsg tofuManager ''1.5.7'' False installedWorld) \<and>
   retrieverCalls (alreadyInstalledMsg tofuManager ''1.5.7'' False installedWorld) = [] \<and>
   fst (Install stubExt tofuManager ''v1.6.2'' installedWorld) = None \<and>
   retrieverCalls (snd (Install stubExt tofuManager ''v1.6.2'' installedWorld))
     = [CallInstallRelease ''1.6.2'' [''home'', ''.tenv'', ''OpenTofu'', ''1.6.2'']] \<and>
   retrieverCalls (snd (Install stubExt tofuManager ''v1.6.2''
       (snd (Install stubExt tofuManager ''v1.6.2'' installedWorld))))
     = [CallInstallRelease ''1.6.2'' [''home'', ''.tenv'', ''OpenTofu'', ''1.6.2'']]"
proof -
  have parsed: "newVersion stubExt ''v1.6.2'' = Some ''1.6.2''"
    by (simp add: stubExt_def dropLeadingV_def digitValue_def)
  have present: "osStat installedWorld (filepathJoin [''home'', ''.tenv'', ''OpenTofu''] ''1.5.7'') = None"
    by (simp add: osStat_def filepathJoin_def installedWorld_def baseWorld_def)
  have none: "retrieverCalls installedWorld = []"
    by (simp add: retrieverCalls_def installedWorld_def baseWorld_def)
  have done1: "Install stubExt tofuManager ''v1.6.2'' installedWorld =
      (None, snd (Install stubExt tofuManager ''v1.6.2'' installedWorld))"
    using first_install(1) by (metis prod.collapse)
  note inst = installer_first_check[of tofuManager True installedWorld "''1.5.7''"
      "[''home'', ''.tenv'', ''OpenTofu'']" installedWorld stubExt "''v1.6.2''"
      "snd (Install stubExt tofuManager ''v1.6.2'' installedWorld)"]
  note already = installer_first_check[of tofuManager False installedWorld "''1.5.7''"
      "[''home'', ''.tenv'', ''OpenTofu'']" installedWorld stubExt "''1.5.7''" installedWorld]
  note again = installer_first_check[of tofuManager False installedWorld "''1.6.2''"
      "[''home'', ''.tenv'', ''OpenTofu'']" installedWorld stubExt "''v1.6.2''"
      "snd (Install stubExt tofuManager ''v1.6.2'' installedWorld)"]
  have "installSpecificVersion tofuManager '''' True installedWorld
     = (Some ErrEmptyVersion, emit (Flush True) installedWorld)"
    using inst by blast
  moreover have "installSpecificVersion tofuManager ''1.5.7'' False installedWorld
     = (None, alreadyInstalledMsg tofuManager ''1.5.7'' False installedWorld)"
    "retrieverCalls (alreadyInstalledMsg tofuManager ''1.5.7'' False installedWorld) = []"
    using already InstallPath_tofu_installedWorld present none by simp_all
  moreover have "retrieverCalls (snd (Install stubExt tofuManager ''v1.6.2''
       (snd (Install stubExt tofuManager ''v1.6.2'' installedWorld))))
     = [CallInstallRelease ''1.6.2'' [''home'', ''.tenv'', ''OpenTofu'', ''1.6.2'']]"
    using again createsTarget_stubRetriever parsed done1 first_install(2) by simp
  ultimately show ?thesis using first_install by blast
qed

subsection \<open>The remote search\<close>











subsection \<open>Use\<close>

lemma writeFile_written:
  "writeFile p content w = (None, w') \<Longrightarrow> map_of (files w') p = Some (File content)"
  by (auto simp: writeFile_def osWriteFile_def update_conv' split: prod.splits option.splits if_splits node.splits)

text \<open>
  C6, as amended. For a manager with at least one version file, \<open>Use\<close> calls \<open>Evaluate\<close> and
  writes the version it returns to the name of the first version file when \<open>workingDir\<close> is
  true and to the file \<open>version\<close> under the root otherwise. \<open>ErrNoCompatibleLocally\<close> from
  \<open>Evaluate\<close> is not fatal: its text is displayed and the version is written all the same.
  Any other error of \<open>Evaluate\<close> is returned, in the world \<open>Evaluate\<close> left: nothing is
  written. When \<open>Use\<close> returns no error the target file holds the version.
\<close>

theorem use_writes_version:
  assumes "VersionFiles m = vf # rest"
    and "Evaluate X m requested False w = ((detected, e), w1)"
    and "target = (if workingDir then [Name vf] else RootVersionFilePath m)"
  shows
    "(e = None \<longrightarrow>
        Use X m requested workingDir w =
          (case writeFile target detected w1 of (e2, w3) \<Rightarrow> (Return e2, w3))) \<and>
     (e = Some ErrNoCompatibleLocally \<longrightarrow>
        Use X m requested workingDir w =
          (case writeFile target detected (emit (Display ''no compatible version found locally'') w1) of
             (e2, w3) \<Rightarrow> (Return e2, w3))) \<and>
     (e \<noteq> None \<and> e \<noteq> Some ErrNoCompatibleLocally \<longrightarrow>
        Use X m requested workingDir w = (Return e, w1)) \<and>
     (fst (Use X m requested workingDir w) = Return None \<longrightarrow>
        map_of (files (snd (Use X m requested workingDir w))) target = Some (File detected))"
proof -
  have ok: "e = None \<longrightarrow>
        Use X m requested workingDir w =
          (case writeFile target detected w1 of (e2, w3) \<Rightarrow> (Return e2, w3))"
    using assms by (simp add: Use_def)
  have gate: "e = Some ErrNoCompatibleLocally \<longrightarrow>
        Use X m requested workingDir w =
          (case writeFile target detected (emit (Display ''no compatible version found locally'') w1) of
             (e2, w3) \<Rightarrow> (Return e2, w3))"
    using assms by (simp add: Use_def errorText_def)
  have fatal: "e \<noteq> None \<and> e \<noteq> Some ErrNoCompatibleLocally \<longrightarrow>
        Use X m requested workingDir w = (Return e, w1)"
    using assms by (simp add: Use_def)
  have "map_of (files (snd (Use X m requested workingDir w))) target = Some (File detected)"
    if none: "fst (Use X m requested workingDir w) = Return None"
  proof -
    consider "e = None" | "e = Some ErrNoCompatibleLocally"
      | "e \<noteq> None \<and> e \<noteq> Some ErrNoCompatibleLocally" by blast
    then show ?thesis
    proof cases
      case 1
      obtain e2 w3 where wr: "writeFile target detected w1 = (e2, w3)"
        by (cases "writeFile target detected w1")
      with ok 1 none have "e2 = None" "snd (Use X m requested workingDir w) = w3" by simp_all
      with wr writeFile_written show ?thesis by simp
    next
      case 2
      obtain e2 w3 where wr: "writeFile target detected
          (emit (Display ''no compatible version found locally'') w1) = (e2, w3)"
        by (cases "writeFile target detected (emit (Display ''no compatible version found locally'') w1)")
      with gate 2 none have "e2 = None" "snd (Use X m requested workingDir w) = w3" by simp_all
      with wr writeFile_written show ?thesis by simp
    next
      case 3
      with fatal none show ?thesis by simp
    qed
  qed
  with ok gate fatal show ?thesis by blast
qed

lemma Evaluate_installed:
  assumes "newVersion X requested = Some version" and "\<not> NoInstall (conf m)" and "version \<noteq> ''''"
    and "InstallPath m w = ((p, None), w1)" and "osStat w1 (filepathJoin p version) = None"
  shows "Evaluate X m requested proxyCall w = ((version, None), alreadyInstalledMsg m version proxyCall w1)"
  using assms(1,2,3,5)
  by (simp add: Evaluate_def installSpecificVersion_def checkVersionInstallation_first[OF assms(4)])

lemma newVersion_stubExt:
  "newVersion stubExt ''1.5.0'' = Some ''1.5.0''" "newVersion stubExt ''1.6.2'' = Some ''1.6.2''"
  "newVersion stubExt ''bogus'' = None"
  by (simp_all add: stubExt_def dropLeadingV_def digitValue_def)

lemma present_150:
  "osStat installedWorld (filepathJoin [''home'', ''.tenv'', ''OpenTofu''] ''1.5.0'') = None"
  "osStat installedWorld (filepathJoin [''home'', ''.tenv'', ''OpenTofu''] ''1.6.2'') = Some (ErrOS ENOENT)"
  by (simp_all add: osStat_def filepathJoin_def installedWorld_def baseWorld_def)

theorem use_writes_version_witness:
  "fst (Use stubExt tofuManager ''1.5.0'' False installedWorld) = Return None \<and>
   map_of (files (snd (Use stubExt tofuManager ''1.5.0'' False installedWorld)))
     [''home'', ''.tenv'', ''OpenTofu'', ''version''] = Some (File ''1.5.0'') \<and>
   fst (Use stubExt tofuManager ''1.5.0'' True installedWorld) = Return None \<and>
   map_of (files (snd (Use stubExt tofuManager ''1.5.0'' True installedWorld)))
     [''.opentofu-version''] = Some (File ''1.5.0'') \<and>
   fst (Use stubExt noInstallManager ''1.6.2'' False installedWorld) = Return None \<and>
   map_of (files (snd (Use stubExt noInstallManager ''1.6.2'' False installedWorld)))
     [''home'', ''.tenv'', ''OpenTofu'', ''version''] = Some (File ''1.6.2'') \<and>
   Use stubExt tofuManager ''bogus'' False installedWorld
     = (Return (Some (ErrExternal ''unknown constraint'')), emit (Flush False) installedWorld)"
proof -
  have files1: "VersionFiles tofuManager = \<lparr>Name = ''.opentofu-version''\<rparr> # []"
    "VersionFiles noInstallManager = \<lparr>Name = ''.opentofu-version''\<rparr> # []"
    by (simp_all add: tofuManager_def noInstallManager_def)
  have root: "RootVersionFilePath tofuManager = [''home'', ''.tenv'', ''OpenTofu'', ''version'']"
    "RootVersionFilePath noInstallManager = [''home'', ''.tenv'', ''OpenTofu'', ''version'']"
    by (simp_all add: RootVersionFilePath_def tofuManager_def noInstallManager_def filepathJoin_def)
  have gates: "\<not> NoInstall (conf tofuManager)" "NoInstall (conf noInstallManager)"
    by (simp_all add: tofuManager_def noInstallManager_def)
  have ev1: "Evaluate stubExt tofuManager ''1.5.0'' False installedWorld =
      ((''1.5.0'', None), alreadyInstalledMsg tofuManager ''1.5.0'' False installedWorld)"
    using Evaluate_installed[OF newVersion_stubExt(1) gates(1) _ InstallPath_tofu_installedWorld present_150(1)]
    by simp
  have ev2: "Evaluate stubExt noInstallManager ''1.6.2'' False installedWorld =
      ((''1.6.2'', Some ErrNoCompatibleLocally),
       snd (autoInstallDisabledMsg noInstallManager ''1.6.2'' installedWorld))"
    using newVersion_stubExt(2) gates(2) present_150(2)
    by (simp add: Evaluate_def checkVersionInstallation_first[OF InstallPath_installedWorld]
        autoInstallDisabledMsg_def Let_def)
  have ev3: "Evaluate stubExt tofuManager ''bogus'' False installedWorld =
      (('''', Some (ErrExternal ''unknown constraint'')), emit (Flush False) installedWorld)"
    using newVersion_stubExt(3) by (simp add: Evaluate_def stubExt_def)
  have w1: "fst (writeFile [''home'', ''.tenv'', ''OpenTofu'', ''version''] ''1.5.0''
        (alreadyInstalledMsg tofuManager ''1.5.0'' False installedWorld)) = None"
    by (simp add: writeFile_def osWriteFile_def alreadyInstalledMsg_def installedWorld_def baseWorld_def)
  have w2: "fst (writeFile [''.opentofu-version''] ''1.5.0''
        (alreadyInstalledMsg tofuManager ''1.5.0'' False installedWorld)) = None"
    by (simp add: writeFile_def osWriteFile_def alreadyInstalledMsg_def installedWorld_def baseWorld_def)
  have w3: "fst (writeFile [''home'', ''.tenv'', ''OpenTofu'', ''version''] ''1.6.2''
        (emit (Display ''no compatible version found locally'')
           (snd (autoInstallDisabledMsg noInstallManager ''1.6.2'' installedWorld)))) = None"
    by (simp add: writeFile_def osWriteFile_def autoInstallDisabledMsg_def Let_def installedWorld_def baseWorld_def)
  have tgt: "[''home'', ''.tenv'', ''OpenTofu'', ''version''] =
      (if False then [Name \<lparr>Name = ''.opentofu-version''\<rparr>] else RootVersionFilePath tofuManager)"
    "[''.opentofu-version''] =
      (if True then [Name \<lparr>Name = ''.opentofu-version''\<rparr>] else RootVersionFilePath tofuManager)"
    "[''home'', ''.tenv'', ''OpenTofu'', ''version''] =
      (if False then [Name \<lparr>Name = ''.opentofu-version''\<rparr>] else RootVersionFilePath noInstallManager)"
    by (simp_all add: root)
  note global = use_writes_version[OF files1(1) ev1 tgt(1)]
  note local = use_writes_version[OF files1(1) ev1 tgt(2)]
  note gated = use_writes_version[OF files1(2) ev2 tgt(3)]
  note failed = use_writes_version[OF files1(1) ev3 tgt(1)]
  have a: "fst (Use stubExt tofuManager ''1.5.0'' False installedWorld) = Return None"
    using global w1 by (simp add: case_prod_beta)
  have a': "map_of (files (snd (Use stubExt tofuManager ''1.5.0'' False installedWorld)))
     [''home'', ''.tenv'', ''OpenTofu'', ''version''] = Some (File ''1.5.0'')"
    using global a by blast
  have l: "fst (Use stubExt tofuManager ''1.5.0'' True installedWorld) = Return None"
    using local w2 by (simp add: case_prod_beta)
  have l': "map_of (files (snd (Use stubExt tofuManager ''1.5.0'' True installedWorld)))
     [''.opentofu-version''] = Some (File ''1.5.0'')"
    using local l by blast
  have g: "fst (Use stubExt noInstallManager ''1.6.2'' False installedWorld) = Return None"
    using gated w3 by (simp add: case_prod_beta)
  have g': "map_of (files (snd (Use stubExt noInstallManager ''1.6.2'' False installedWorld)))
     [''home'', ''.tenv'', ''OpenTofu'', ''version''] = Some (File ''1.6.2'')"
    using gated g by blast
  have f: "Use stubExt tofuManager ''bogus'' False installedWorld
     = (Return (Some (ErrExternal ''unknown constraint'')), emit (Flush False) installedWorld)"
    using failed by simp
  from a a' l l' g g' f show ?thesis by blast
qed

text \<open>
  C6 as stated fails: \<open>Use\<close> reads the name of the first version file before it looks at
  \<open>workingDir\<close>. For a manager with no version file, \<open>Evaluate\<close> succeeds on the installed
  version 1.5.0, and \<open>Use\<close> with \<open>workingDir\<close> false panics: the file \<open>version\<close> under
  the root still holds 1.5.7.
\<close>

theorem use_panics_without_version_files:
  "fst (Evaluate stubExt bareManager ''1.5.0'' False installedWorld) = (''1.5.0'', None) \<and>
   fst (Use stubExt bareManager ''1.5.0'' False installedWorld) = Panic \<and>
   map_of (files (snd (Use stubExt bareManager ''1.5.0'' False installedWorld)))
     (RootVersionFilePath bareManager) = Some (File ''1.5.7'')"
proof -
  have path: "InstallPath bareManager installedWorld = (([''home'', ''.tenv'', ''OpenTofu''], None), installedWorld)"
    by (simp add: InstallPath_def bareManager_def tofuManager_def filepathJoin_def osMkdirAll_def
        installedWorld_def baseWorld_def Let_def)
  have gate: "\<not> NoInstall (conf bareManager)" "VersionFiles bareManager = []"
    "RootVersionFilePath bareManager = [''home'', ''.tenv'', ''OpenTofu'', ''version'']"
    by (simp_all add: bareManager_def tofuManager_def RootVersionFilePath_def filepathJoin_def)
  have ev: "Evaluate stubExt bareManager ''1.5.0'' False installedWorld =
      ((''1.5.0'', None), alreadyInstalledMsg bareManager ''1.5.0'' False installedWorld)"
    using Evaluate_installed[OF newVersion_stubExt(1) gate(1) _ path present_150(1)] by simp
  have "Use stubExt bareManager ''1.5.0'' False installedWorld =
      (Panic, alreadyInstalledMsg bareManager ''1.5.0'' False installedWorld)"
    by (simp add: Use_def ev gate)
  then show ?thesis
    using ev gate(3) by (simp add: alreadyInstalledMsg_keeps) (simp add: installedWorld_def baseWorld_def)
qed

end
